theory Spec2Isabelle
  imports Complex_Main
begin

section \<open>JavaScript numbers\<close>

text \<open>
  A JavaScript number is an IEEE 754 double. A double is modelled by the real number it
  denotes, and every arithmetic operation of the source by the exact operation followed by
  \<open>fl\<close>, rounding to the nearest double, ties to the even significand: \<open>rne\<close> rounds to
  the nearest integer, \<open>expo\<close> is the binary exponent (from -1022, where the subnormal
  numbers begin) and \<open>ulp\<close> the spacing of the doubles at that exponent. The magnitudes
  of this program stay far below the largest double, so \<open>fl\<close> has no overflow to infinity,
  and no operation of the program yields NaN. A decimal literal of the source is the
  double nearest to it, written \<open>fl\<close> of the literal; a literal that is a double itself
  (an integer, 0.5) is written as it is. Comparisons, \<open>Math.floor\<close>, \<open>Math.round\<close>,
  \<open>Math.max\<close> and \<open>Math.min\<close> are exact.
\<close>

definition rne :: "real \<Rightarrow> int" where
  "rne y =
     (if y - of_int \<lfloor>y\<rfloor> < 1/2 then \<lfloor>y\<rfloor>
      else if 1/2 < y - of_int \<lfloor>y\<rfloor> then \<lfloor>y\<rfloor> + 1
      else if even \<lfloor>y\<rfloor> then \<lfloor>y\<rfloor> else \<lfloor>y\<rfloor> + 1)"

definition expo :: "real \<Rightarrow> int" where
  "expo x = max (- 1022) \<lfloor>log 2 x\<rfloor>"

definition ulp :: "real \<Rightarrow> real" where
  "ulp x = 2 powi (expo x - 52)"

definition fl :: "real \<Rightarrow> real" where
  "fl x = sgn x * (ulp \<bar>x\<bar> * of_int (rne (\<bar>x\<bar> / ulp \<bar>x\<bar>)))"

definition is_double :: "real \<Rightarrow> bool" where
  "is_double x = (fl x = x)"

section \<open>Data model (tunnel\_simulation.tsx, lines 4--62)\<close>

text \<open>
  An identifier built by a template literal from a number (\<open>V-n\<close>, \<open>AI-n\<close>) is
  represented by the number \<open>n\<close>; two such identifiers are equal exactly when their
  numbers are. An array read outside the array gives JavaScript's \<open>undefined\<close>, which is
  \<open>None\<close> here.
\<close>

datatype vehicle_type = Car | Truck | Emergency

datatype insight_type = Info | Warning | Critical

record Vehicle =
  vid :: nat
  lane :: int
  position :: real
  speed :: real
  vtype :: "vehicle_type option"
  color :: "string option"
  temperature :: real
  detected :: bool

text \<open>
  The two message templates of \<open>detectIncidents\<close>, kept with the values they interpolate:
  \<open>SlowStopped type (lane + 1) (round position)\<close> and
  \<open>HotSpot type (round temperature) (lane + 1)\<close>.
\<close>

datatype message =
    SlowStopped "vehicle_type option" int int
  | HotSpot "vehicle_type option" int int

text \<open>
  \<open>iid\<close> is the reading of \<open>Date.now()\<close> the id is built from; \<open>itimestamp\<close> is the
  reading of the clock that \<open>toLocaleTimeString\<close> formats.
\<close>

record AIInsight =
  iid :: nat
  itimestamp :: nat
  itype :: insight_type
  message :: message
  zone :: "string option"

text \<open>
  The component's state hooks and refs. \<open>temperature_s\<close> is the hook \<open>temperature\<close>
  (the name is taken by the vehicle's field). \<open>clockReads\<close> counts the readings of the
  wall clock taken so far: the k-th reading is \<open>now k\<close> for the clock \<open>now\<close> the
  operations are given.
\<close>

record Simulation =
  isRunning :: bool
  vehicles :: "Vehicle list"
  simulationTime :: real
  vehicleCount :: nat
  airQuality :: real
  temperature_s :: real
  visibility :: real
  ventilationLevel :: real
  activeCameraZone :: nat
  aiInsights :: "AIInsight list"
  incidentDetected :: bool
  lastSpawnTime :: real
  vehicleIdCounter :: nat
  clockReads :: nat

type_synonym clock = "nat \<Rightarrow> nat"

text \<open>
  The values \<open>Math.random()\<close> returns during one call of \<open>animate\<close>, one field per
  call site; \<open>slowdownDraw i\<close> is the draw of line 145 for the i-th vehicle of the array.
\<close>

record Draws =
  spawnGate :: real
  typeDraw :: real
  laneDraw :: real
  speedDraw :: real
  colorDraw :: real
  temperatureDraw :: real
  slowdownDraw :: "nat \<Rightarrow> real"
  airQualityDraw :: real
  temperatureEnvDraw :: real
  visibilityDraw :: real

definition initial :: Simulation where
  "initial = \<lparr> isRunning = False, vehicles = [], simulationTime = 0, vehicleCount = 0,
     airQuality = 85, temperature_s = 22, visibility = 95, ventilationLevel = 60,
     activeCameraZone = 1, aiInsights = [], incidentDetected = False,
     lastSpawnTime = 0, vehicleIdCounter = 0, clockReads = 0 \<rparr>"

section \<open>Vehicle spawning (lines 65--82)\<close>

definition vehicleTypes :: "vehicle_type list" where
  "vehicleTypes = [Car, Car, Car, Truck, Car]"

definition colors :: "string list" where
  "colors = [''#3b82f6'', ''#ef4444'', ''#10b981'', ''#f59e0b'', ''#8b5cf6'']"

definition js_index :: "'a list \<Rightarrow> int \<Rightarrow> 'a option" where
  "js_index xs i = (if 0 \<le> i \<and> i < int (length xs) then Some (xs ! nat i) else None)"

text \<open>\<open>spawnVehicle d counter\<close> returns the new vehicle and the incremented id counter.\<close>

definition spawnVehicle :: "Draws \<Rightarrow> nat \<Rightarrow> Vehicle \<times> nat" where
  "spawnVehicle d counter =
     (let type = js_index vehicleTypes \<lfloor>fl (typeDraw d * real (length vehicleTypes))\<rfloor> in
      (\<lparr> vid = counter,
         lane = \<lfloor>fl (laneDraw d * 3)\<rfloor>,
         position = 0,
         speed = (if type = Some Truck then fl (fl (3/10) + fl (speedDraw d * fl (2/10)))
                  else fl (1/2 + fl (speedDraw d * fl (3/10)))),
         vtype = type,
         color = js_index colors \<lfloor>fl (colorDraw d * real (length colors))\<rfloor>,
         temperature = fl (20 + fl (temperatureDraw d * 15)),
         detected = False \<rparr>,
       counter + 1))"

section \<open>Incident detection (lines 85--126)\<close>

definition getCameraZoneForPosition :: "real \<Rightarrow> string" where
  "getCameraZoneForPosition p =
     (if p < 25 then ''CAM-01''
      else if p < 50 then ''CAM-02''
      else if p < 75 then ''CAM-03''
      else ''CAM-04'')"

text \<open>\<open>Math.round\<close>: the nearest integer, ties towards plus infinity.\<close>

definition js_round :: "real \<Rightarrow> int" where
  "js_round x = \<lfloor>x + 1/2\<rfloor>"

text \<open>The updater of lines 100 and 115: \<open>prev => [insight, ...prev].slice(0, 5)\<close>.\<close>

definition pushInsight :: "AIInsight \<Rightarrow> AIInsight list \<Rightarrow> AIInsight list" where
  "pushInsight insight prev = take 5 (insight # prev)"

definition stallInsight :: "clock \<Rightarrow> nat \<Rightarrow> Vehicle \<Rightarrow> AIInsight" where
  "stallInsight now k vehicle =
     \<lparr> iid = now k, itimestamp = now (k + 1), itype = Warning,
       message = SlowStopped (vtype vehicle) (lane vehicle + 1) (js_round (position vehicle)),
       zone = Some (getCameraZoneForPosition (position vehicle)) \<rparr>"

definition heatInsight :: "clock \<Rightarrow> nat \<Rightarrow> Vehicle \<Rightarrow> AIInsight" where
  "heatInsight now k vehicle =
     \<lparr> iid = now k, itimestamp = now (k + 1), itype = Critical,
       message = HotSpot (vtype vehicle) (js_round (temperature vehicle)) (lane vehicle + 1),
       zone = Some (getCameraZoneForPosition (position vehicle)) \<rparr>"

text \<open>Lines 88--101: the first \<open>if\<close> of the loop body.\<close>

definition stallRule :: "clock \<Rightarrow> Vehicle \<times> Simulation \<Rightarrow> Vehicle \<times> Simulation" where
  "stallRule now vs =
     (case vs of (vehicle, s) \<Rightarrow>
        if speed vehicle < fl (2/10) \<and> \<not> detected vehicle then
          (vehicle\<lparr>detected := True\<rparr>,
           s\<lparr>incidentDetected := True,
             aiInsights := pushInsight (stallInsight now (clockReads s) vehicle) (aiInsights s),
             clockReads := clockReads s + 2\<rparr>)
        else (vehicle, s))"

text \<open>Lines 104--116: the second \<open>if\<close> of the loop body.\<close>

definition heatRule :: "clock \<Rightarrow> Vehicle \<times> Simulation \<Rightarrow> Vehicle \<times> Simulation" where
  "heatRule now vs =
     (case vs of (vehicle, s) \<Rightarrow>
        if temperature vehicle > 30 \<and> \<not> detected vehicle then
          (vehicle\<lparr>detected := True\<rparr>,
           s\<lparr>aiInsights := pushInsight (heatInsight now (clockReads s) vehicle) (aiInsights s),
             clockReads := clockReads s + 2\<rparr>)
        else (vehicle, s))"

text \<open>The body of the \<open>forEach\<close>: the vehicle object is mutated, the setters update the state.\<close>

definition detectVehicle :: "clock \<Rightarrow> Vehicle \<Rightarrow> Simulation \<Rightarrow> Vehicle \<times> Simulation" where
  "detectVehicle now vehicle s = heatRule now (stallRule now (vehicle, s))"

fun detectIncidents :: "clock \<Rightarrow> Vehicle list \<Rightarrow> Simulation \<Rightarrow> Vehicle list \<times> Simulation" where
  "detectIncidents now [] s = ([], s)"
| "detectIncidents now (vehicle # vehicleList) s =
     (case detectVehicle now vehicle s of (vehicle', s') \<Rightarrow>
        (case detectIncidents now vehicleList s' of (vehicleList', s'') \<Rightarrow>
           (vehicle' # vehicleList', s'')))"

section \<open>The animation loop (lines 129--163)\<close>

text \<open>The callback of the \<open>map\<close> of lines 141--146, given its draw.\<close>

definition advanceVehicle :: "real \<Rightarrow> Vehicle \<Rightarrow> Vehicle" where
  "advanceVehicle r v =
     v\<lparr>position := fl (position v + speed v),
       speed := (if r > fl (995/1000) then fl (speed v * fl (3/10)) else speed v)\<rparr>"

fun mapVehicles :: "(nat \<Rightarrow> real) \<Rightarrow> nat \<Rightarrow> Vehicle list \<Rightarrow> Vehicle list" where
  "mapVehicles r i [] = []"
| "mapVehicles r i (v # vs) = advanceVehicle (r i) v # mapVehicles r (Suc i) vs"

text \<open>Lines 140--147: \<open>prev.map(...).filter(v => v.position < 100)\<close>.\<close>

definition moveVehicles :: "(nat \<Rightarrow> real) \<Rightarrow> Vehicle list \<Rightarrow> Vehicle list" where
  "moveVehicles r prev = filter (\<lambda>v. position v < 100) (mapVehicles r 0 prev)"

text \<open>Lines 133--136.\<close>

definition spawnStep :: "Draws \<Rightarrow> real \<Rightarrow> Simulation \<Rightarrow> Simulation" where
  "spawnStep d timestamp s =
     (if fl (timestamp - lastSpawnTime s) > fl (2000 + fl (spawnGate d * 2000)) then
        (case spawnVehicle d (vehicleIdCounter s) of (newVehicle, counter) \<Rightarrow>
           s\<lparr>vehicles := vehicles s @ [newVehicle],
             vehicleIdCounter := counter,
             lastSpawnTime := timestamp\<rparr>)
      else s)"

text \<open>Lines 139--153.\<close>

definition vehicleStep :: "clock \<Rightarrow> Draws \<Rightarrow> Simulation \<Rightarrow> Simulation" where
  "vehicleStep now d s =
     (case detectIncidents now (moveVehicles (slowdownDraw d) (vehicles s)) s of
        (updated, s') \<Rightarrow> s'\<lparr>vehicleCount := length updated, vehicles := updated\<rparr>)"

text \<open>Lines 156--160.\<close>

definition sensorStep :: "Draws \<Rightarrow> Simulation \<Rightarrow> Simulation" where
  "sensorStep d s =
     s\<lparr>airQuality :=
         max 70 (min 100 (fl (airQuality s + fl (fl (airQualityDraw d - 1/2) * 2)))),
       temperature_s :=
         max 18 (min 28 (fl (temperature_s s + fl (fl (temperatureEnvDraw d - 1/2) * (1/2))))),
       visibility :=
         max 80 (min 100 (fl (visibility s + fl (fl (visibilityDraw d - 1/2) * 1)))),
       simulationTime := fl (simulationTime s + fl (1/10))\<rparr>"

definition animate :: "clock \<Rightarrow> Draws \<Rightarrow> real \<Rightarrow> Simulation \<Rightarrow> Simulation" where
  "animate now d timestamp s =
     (if \<not> isRunning s then s
      else sensorStep d (vehicleStep now d (spawnStep d timestamp s)))"

section \<open>Reset and the controls (lines 181--193, 220, 242, 422)\<close>

definition resetSimulation :: "Simulation \<Rightarrow> Simulation" where
  "resetSimulation s =
     s\<lparr>isRunning := False, vehicles := [], simulationTime := 0, vehicleCount := 0,
       airQuality := 85, temperature_s := 22, visibility := 95, ventilationLevel := 60,
       aiInsights := [], incidentDetected := False, vehicleIdCounter := 0\<rparr>"

datatype action =
    Animate Draws real
  | ToggleRunning
  | Reset
  | Acknowledge
  | SelectZone nat

fun step :: "clock \<Rightarrow> Simulation \<Rightarrow> action \<Rightarrow> Simulation" where
  "step now s (Animate d timestamp) = animate now d timestamp s"
| "step now s ToggleRunning = s\<lparr>isRunning := \<not> isRunning s\<rparr>"
| "step now s Reset = resetSimulation s"
| "step now s Acknowledge = s\<lparr>incidentDetected := False\<rparr>"
| "step now s (SelectZone z) = s\<lparr>activeCameraZone := z\<rparr>"

text \<open>The state after a sequence of actions, from a given state and from the initial one.\<close>

definition runFrom :: "clock \<Rightarrow> Simulation \<Rightarrow> action list \<Rightarrow> Simulation" where
  "runFrom now s as = foldl (step now) s as"

definition run :: "clock \<Rightarrow> action list \<Rightarrow> Simulation" where
  "run now as = runFrom now initial as"

text \<open>\<open>Math.random()\<close> returns a double in [0, 1).\<close>

definition unit_draw :: "real \<Rightarrow> bool" where
  "unit_draw r = (is_double r \<and> 0 \<le> r \<and> r < 1)"

definition valid_draws :: "Draws \<Rightarrow> bool" where
  "valid_draws d =
     (unit_draw (spawnGate d) \<and> unit_draw (typeDraw d) \<and> unit_draw (laneDraw d) \<and>
      unit_draw (speedDraw d) \<and> unit_draw (colorDraw d) \<and> unit_draw (temperatureDraw d) \<and>
      (\<forall>i. unit_draw (slowdownDraw d i)) \<and>
      unit_draw (airQualityDraw d) \<and> unit_draw (temperatureEnvDraw d) \<and>
      unit_draw (visibilityDraw d))"

fun valid_action :: "action \<Rightarrow> bool" where
  "valid_action (Animate d timestamp) = valid_draws d"
| "valid_action a = True"

section \<open>Observers of a pass and of a run\<close>

text \<open>
  The alerts a detection pass creates, as the specification words the detector: for each
  vehicle not yet detected, in the order of the list, the stall rule's warning if its speed
  is below 0.2, else the heat rule's critical alert if its temperature is above 30. Each
  alert is paired with the id of the vehicle it is raised for; \<open>k\<close> counts the clock
  readings taken before the vehicle is visited.
\<close>

fun passAlerts :: "clock \<Rightarrow> nat \<Rightarrow> Vehicle list \<Rightarrow> (nat \<times> AIInsight) list" where
  "passAlerts now k [] = []"
| "passAlerts now k (v # vs) =
     (if detected v then passAlerts now k vs
      else if speed v < fl (2/10) then (vid v, stallInsight now k v) # passAlerts now (k + 2) vs
      else if temperature v > 30 then (vid v, heatInsight now k v) # passAlerts now (k + 2) vs
      else passAlerts now k vs)"

text \<open>The alerts of the pass of one tick of the running simulation.\<close>

definition tickAlerts :: "clock \<Rightarrow> Draws \<Rightarrow> real \<Rightarrow> Simulation \<Rightarrow> (nat \<times> AIInsight) list" where
  "tickAlerts now d timestamp s =
     passAlerts now (clockReads s)
       (moveVehicles (slowdownDraw d) (vehicles (spawnStep d timestamp s)))"

text \<open>What a pass does to the flag of a vehicle.\<close>

definition markDetected :: "Vehicle \<Rightarrow> Vehicle" where
  "markDetected v =
     (if \<not> detected v \<and> (speed v < fl (2/10) \<or> temperature v > 30) then v\<lparr>detected := True\<rparr>
      else v)"

text \<open>
  Vehicle \<open>n\<close> is settled in a state when its id has been given out and every vehicle of
  the state with that id has its flag set.
\<close>

definition settled :: "nat \<Rightarrow> Simulation \<Rightarrow> bool" where
  "settled n s = (n < vehicleIdCounter s \<and> (\<forall>v\<in>set (vehicles s). vid v = n \<longrightarrow> detected v))"

text \<open>The ids of the live vehicles are pairwise distinct and below the id counter.\<close>

definition idsInOrder :: "Simulation \<Rightarrow> bool" where
  "idsInOrder s =
     (distinct (map vid (vehicles s)) \<and> (\<forall>v\<in>set (vehicles s). vid v < vehicleIdCounter s))"

text \<open>
  The ids of the vehicles that the \<open>map\<close> of lines 141--146 slows down: those whose draw
  exceeds 0.995.
\<close>

fun slowedIn :: "(nat \<Rightarrow> real) \<Rightarrow> nat \<Rightarrow> Vehicle list \<Rightarrow> nat set" where
  "slowedIn r i [] = {}"
| "slowedIn r i (v # vs) =
     (if r i > fl (995/1000) then {vid v} else {}) \<union> slowedIn r (Suc i) vs"

text \<open>
  A run together with its slowdown history: the second component collects the ids of the
  vehicles slowed down in some tick since the last reset. The first component is the
  run itself.
\<close>

fun stepH :: "clock \<Rightarrow> Simulation \<times> nat set \<Rightarrow> action \<Rightarrow> Simulation \<times> nat set" where
  "stepH now (s, H) (Animate d timestamp) =
     (animate now d timestamp s,
      if isRunning s then H \<union> slowedIn (slowdownDraw d) 0 (vehicles (spawnStep d timestamp s))
      else H)"
| "stepH now (s, H) Reset = (resetSimulation s, {})"
| "stepH now (s, H) a = (step now s a, H)"

definition runH :: "clock \<Rightarrow> action list \<Rightarrow> Simulation \<times> nat set" where
  "runH now as = foldl (stepH now) (initial, {}) as"

definition slowedIds :: "clock \<Rightarrow> action list \<Rightarrow> nat set" where
  "slowedIds now as = snd (runH now as)"

section \<open>Concrete inputs\<close>

text \<open>A wall clock that stays within one millisecond: every reading is the same.\<close>

definition steadyClock :: clock where
  "steadyClock k = 1700000000000"

text \<open>A tick whose draws spawn a car at 33.125 degrees with speed 0.5 and slow nothing down.\<close>

definition hotSpawnDraws :: Draws where
  "hotSpawnDraws =
     \<lparr> spawnGate = 0, typeDraw = 0, laneDraw = 1/2, speedDraw = 0, colorDraw = 0,
       temperatureDraw = 7/8, slowdownDraw = (\<lambda>i. 1/2),
       airQualityDraw = 1/2, temperatureEnvDraw = 1/2, visibilityDraw = 1/2 \<rparr>"

text \<open>A tick whose draws spawn a truck at 23.75 degrees with speed 0.3 and slow nothing down.\<close>

definition truckSpawnDraws :: Draws where
  "truckSpawnDraws =
     \<lparr> spawnGate = 0, typeDraw = 3/4, laneDraw = 1/2, speedDraw = 0, colorDraw = 0,
       temperatureDraw = 1/4, slowdownDraw = (\<lambda>i. 1/2),
       airQualityDraw = 1/2, temperatureEnvDraw = 1/2, visibilityDraw = 1/2 \<rparr>"

text \<open>The same spawn, in a tick whose slowdown draw exceeds 0.995 for every vehicle.\<close>

definition slowSpawnDraws :: Draws where
  "slowSpawnDraws = truckSpawnDraws\<lparr>slowdownDraw := (\<lambda>i. 1023/1024)\<rparr>"

text \<open>The truck's spawn with the largest speed draw there is, the double just below 1.\<close>

definition topSpeedDraws :: Draws where
  "topSpeedDraws = truckSpawnDraws\<lparr>speedDraw := 1 - 1 / 2 ^ 53\<rparr>"

definition truckRun :: "action list" where
  "truckRun = [ToggleRunning, Animate truckSpawnDraws 5000]"

text \<open>
  A run of 1075 ticks at the same time stamp: the first tick spawns the truck, and each
  tick slows it down.
\<close>

definition underflowRun :: "action list" where
  "underflowRun = ToggleRunning # replicate 1075 (Animate slowSpawnDraws 5000)"

text \<open>A stalled, overheated vehicle that no rule has seen yet.\<close>

definition stalledHotVehicle :: Vehicle where
  "stalledHotVehicle =
     \<lparr> vid = 3, lane = 0, position = 40, speed = 1/8, vtype = Some Car,
       color = Some ''#ef4444'', temperature = 32, detected = False \<rparr>"

section \<open>Rounding to the nearest double\<close>

lemma rne_bounds: "\<lfloor>y\<rfloor> \<le> rne y \<and> rne y \<le> \<lfloor>y\<rfloor> + 1"
  by (simp add: rne_def)

lemma rne_of_int [simp]: "rne (of_int n) = n"
  by (simp add: rne_def)

lemma rne_mono:
  assumes "x \<le> y"
  shows "rne x \<le> rne y"
proof (cases "\<lfloor>x\<rfloor> = \<lfloor>y\<rfloor>")
  case True
  with assms have "x - of_int \<lfloor>x\<rfloor> \<le> y - of_int \<lfloor>y\<rfloor>"
    by simp
  with True show ?thesis
    by (auto simp: rne_def)
next
  case False
  with assms have "\<lfloor>x\<rfloor> + 1 \<le> \<lfloor>y\<rfloor>"
    using floor_mono [of x y] by linarith
  with rne_bounds [of x] rne_bounds [of y] show ?thesis
    by linarith
qed

lemma rne_cases:
  obtains f where "of_int f \<le> y" and "y < of_int f + 1" and "f = \<lfloor>y\<rfloor>"
    and "rne y = (if y - of_int f < 1/2 then f else if 1/2 < y - of_int f then f + 1
                  else if even f then f else f + 1)"
proof -
  have "of_int \<lfloor>y\<rfloor> \<le> y" and "y < of_int \<lfloor>y\<rfloor> + 1"
    by linarith+
  then show ?thesis
    using that [of "\<lfloor>y\<rfloor>"] by (simp add: rne_def)
qed

lemma rne_error: "\<bar>of_int (rne y) - y\<bar> \<le> 1/2"
proof -
  obtain f where "of_int f \<le> y" and "y < of_int f + 1"
    and "rne y = (if y - of_int f < 1/2 then f else if 1/2 < y - of_int f then f + 1
                  else if even f then f else f + 1)"
    by (rule rne_cases)
  then show ?thesis
    by (auto simp: abs_if)
qed

lemma rne_nonneg: "0 \<le> y \<Longrightarrow> 0 \<le> rne y"
  using rne_mono [of 0 y] rne_of_int [of 0] by simp

lemma rne_minus: "rne (- y) = - rne y"
proof (cases "y \<in> \<int>")
  case True
  then obtain n where "y = of_int n"
    by (auto elim: Ints_cases)
  then show ?thesis
    using rne_of_int [of "- n"] by simp
next
  case False
  define f where "f = \<lfloor>y\<rfloor>"
  have "y \<noteq> of_int f"
    using False by (metis Ints_of_int)
  moreover have "of_int f \<le> y" and "y < of_int f + 1"
    unfolding f_def by linarith+
  ultimately have strict: "of_int f < y" "y < of_int f + 1"
    by simp_all
  then have "\<lfloor>- y\<rfloor> = - f - 1"
    by (intro floor_unique) simp_all
  then have "rne (- y) =
      (if - y - of_int (- f - 1) < 1/2 then - f - 1
       else if 1/2 < - y - of_int (- f - 1) then - f
       else if even (- f - 1) then - f - 1 else - f)"
    by (simp add: rne_def)
  moreover have "rne y = (if y - of_int f < 1/2 then f else if 1/2 < y - of_int f then f + 1
      else if even f then f else f + 1)"
    by (simp add: rne_def f_def)
  ultimately show ?thesis
    using strict by (auto simp: algebra_simps)
qed

lemma pow2_powr: "2 powr real_of_int k = 2 powi k"
  by (simp add: powr_real_of_int power_int_def power_one_over inverse_eq_divide)

lemma expo_eq:
  assumes "2 powi e \<le> x" and "x < 2 powi (e + 1)"
  shows "expo x = max (- 1022) e"
proof -
  have "0 < x"
    using assms(1) zero_less_power_int [of "2::real" e] by linarith
  then have "\<lfloor>log 2 x\<rfloor> = e"
    using assms by (simp add: floor_log_eq_powr_iff pow2_powr [symmetric])
  then show ?thesis
    by (simp add: expo_def)
qed

lemma expo_bounds:
  assumes "0 < x"
  shows "2 powi \<lfloor>log 2 x\<rfloor> \<le> x \<and> x < 2 powi (\<lfloor>log 2 x\<rfloor> + 1)"
  using assms floor_log_eq_powr_iff [of x 2 "\<lfloor>log 2 x\<rfloor>"]
  by (simp add: pow2_powr [symmetric])

lemma expo_ge: "- 1022 \<le> expo x"
  by (simp add: expo_def)

lemma expo_upper: "0 < x \<Longrightarrow> x < 2 powi (expo x + 1)"
proof -
  assume "0 < x"
  then have "x < 2 powi (\<lfloor>log 2 x\<rfloor> + 1)"
    using expo_bounds by blast
  also have "\<dots> \<le> 2 powi (expo x + 1)"
    by (intro power_int_increasing) (simp_all add: expo_def)
  finally show ?thesis .
qed

lemma expo_lower: "0 < x \<Longrightarrow> - 1022 < expo x \<Longrightarrow> 2 powi expo x \<le> x"
  using expo_bounds [of x] by (simp add: expo_def max_def split: if_splits)

lemma expo_mono: "0 < x \<Longrightarrow> x \<le> y \<Longrightarrow> expo x \<le> expo y"
  unfolding expo_def by (intro max.mono floor_mono) simp_all

lemma ulp_pos [simp]: "0 < ulp x"
  by (simp add: ulp_def)


lemma pow2_add: "(2::real) powi (a + b) = 2 powi a * 2 powi b"
  by (simp add: power_int_add)

lemma pow2_diff: "(2::real) powi (a - b) = 2 powi a / 2 powi b"
  by (simp add: power_int_diff)

lemma pow2_less_iff: "(2::real) powi a < 2 powi b \<longleftrightarrow> a < b"
proof
  assume less: "(2::real) powi a < 2 powi b"
  show "a < b"
  proof (rule ccontr)
    assume "\<not> a < b"
    then have "(2::real) powi b \<le> 2 powi a"
      by (intro power_int_increasing) simp_all
    with less show False by simp
  qed
next
  assume "a < b"
  then show "(2::real) powi a < 2 powi b"
    by (intro power_int_strict_increasing) simp_all
qed

lemma pow2_le_iff: "(2::real) powi a \<le> 2 powi b \<longleftrightarrow> a \<le> b"
  by (simp only: not_less [symmetric] pow2_less_iff)

lemma ulp_nonneg [simp]: "0 \<le> ulp x"
  by (simp add: ulp_def)

lemma ulp_neq_0 [simp]: "ulp x \<noteq> 0"
  by (simp add: ulp_def)

lemma ulp_times_53: "ulp x * 2 powi 53 = 2 powi (expo x + 1)"
proof -
  have "expo x - 52 + 53 = expo x + 1" by simp
  then show ?thesis
    unfolding ulp_def by (simp only: pow2_add [symmetric])
qed

lemma ulp_times_52: "ulp x * 2 powi 52 = 2 powi expo x"
proof -
  have "expo x - 52 + 52 = expo x" by simp
  then show ?thesis
    unfolding ulp_def by (simp only: pow2_add [symmetric])
qed

lemma fl_0 [simp]: "fl 0 = 0"
  by (simp add: fl_def)

lemma fl_pos: "0 < x \<Longrightarrow> fl x = ulp x * of_int (rne (x / ulp x))"
  by (simp add: fl_def)

lemma fl_minus: "fl (- x) = - fl x"
  by (simp add: fl_def sgn_minus)

lemma fl_nonneg: "0 \<le> x \<Longrightarrow> 0 \<le> fl x"
proof (cases "x = 0")
  case False
  assume "0 \<le> x"
  with False have "0 < x" by simp
  then have "0 \<le> rne (x / ulp x)"
    by (intro rne_nonneg divide_nonneg_nonneg) simp_all
  with \<open>0 < x\<close> show ?thesis
    by (simp add: fl_pos)
qed simp

lemma fl_upper_binade:
  assumes "0 < x"
  shows "fl x \<le> 2 powi (expo x + 1)"
proof -
  have "x / ulp x \<le> 2 powi 53"
  proof -
    have "x \<le> 2 powi (expo x + 1)"
      using expo_upper [OF assms] by simp
    also have "\<dots> = 2 powi 53 * ulp x"
      by (simp only: ulp_times_53 [symmetric] mult.commute)
    finally show ?thesis
      by (simp only: pos_divide_le_eq [OF ulp_pos])
  qed
  then have "rne (x / ulp x) \<le> rne (of_int (2 ^ 53))"
    by (intro rne_mono) simp
  then have "rne (x / ulp x) \<le> 2 ^ 53"
    by (simp only: rne_of_int)
  then have "(of_int (rne (x / ulp x)) :: real) \<le> of_int (2 ^ 53)"
    by (simp only: of_int_le_iff)
  then have "of_int (rne (x / ulp x)) \<le> (2::real) powi 53"
    by simp
  then have "fl x \<le> ulp x * 2 powi 53"
    using assms by (simp add: fl_pos mult_left_mono)
  also have "\<dots> = 2 powi (expo x + 1)"
    by (rule ulp_times_53)
  finally show ?thesis .
qed

lemma fl_lower_binade:
  assumes "0 < x" and "- 1022 < expo x"
  shows "2 powi expo x \<le> fl x"
proof -
  have "2 powi 52 \<le> x / ulp x"
  proof -
    have "2 powi 52 * ulp x = 2 powi expo x"
      by (simp only: ulp_times_52 [symmetric] mult.commute)
    also have "\<dots> \<le> x"
      using assms by (rule expo_lower)
    finally show ?thesis
      by (simp only: pos_le_divide_eq [OF ulp_pos])
  qed
  then have "rne (of_int (2 ^ 52)) \<le> rne (x / ulp x)"
    by (intro rne_mono) simp
  then have "2 ^ 52 \<le> rne (x / ulp x)"
    by (simp only: rne_of_int)
  then have "(of_int (2 ^ 52) :: real) \<le> of_int (rne (x / ulp x))"
    by (simp only: of_int_le_iff)
  then have "(2::real) powi 52 \<le> of_int (rne (x / ulp x))"
    by simp
  then have "ulp x * 2 powi 52 \<le> fl x"
    using assms by (simp add: fl_pos mult_left_mono)
  then show ?thesis
    by (simp only: ulp_times_52)
qed

lemma fl_mono_pos:
  assumes "0 < x" and "x \<le> y"
  shows "fl x \<le> fl y"
proof (cases "expo x = expo y")
  case True
  then have same: "ulp x = ulp y"
    by (simp add: ulp_def)
  have "x / ulp y \<le> y / ulp y"
    using assms(2) by (intro divide_right_mono) simp_all
  then have "rne (x / ulp y) \<le> rne (y / ulp y)"
    by (rule rne_mono)
  then have "ulp y * of_int (rne (x / ulp y)) \<le> ulp y * of_int (rne (y / ulp y))"
    by (simp add: mult_left_mono)
  with assms same show ?thesis
    by (simp add: fl_pos)
next
  case False
  with expo_mono [OF assms] have less: "expo x + 1 \<le> expo y"
    by simp
  with expo_ge [of x] have "- 1022 < expo y"
    by linarith
  with assms have "2 powi expo y \<le> fl y"
    by (intro fl_lower_binade) simp_all
  moreover have "fl x \<le> 2 powi (expo x + 1)"
    using assms(1) by (rule fl_upper_binade)
  moreover have "(2::real) powi (expo x + 1) \<le> 2 powi expo y"
    using less by (simp only: pow2_le_iff)
  ultimately show ?thesis by linarith
qed

lemma fl_mono:
  assumes "x \<le> y"
  shows "fl x \<le> fl y"
proof -
  consider "0 < x" | "x \<le> 0" "0 \<le> y" | "y < 0"
    using assms by linarith
  then show ?thesis
  proof cases
    case 1
    then show ?thesis using assms by (rule fl_mono_pos)
  next
    case 2
    then have "0 \<le> fl y" and "0 \<le> fl (- x)"
      by (simp_all add: fl_nonneg)
    then show ?thesis
      by (simp add: fl_minus)
  next
    case 3
    then have "fl (- y) \<le> fl (- x)"
      using assms by (intro fl_mono_pos) simp_all
    then show ?thesis
      by (simp add: fl_minus)
  qed
qed

lemma fl_eval:
  assumes "2 powi e \<le> x" and "x < 2 powi (e + 1)" and "- 1022 \<le> e"
  shows "fl x = 2 powi (e - 52) * of_int (rne (x / 2 powi (e - 52)))"
proof -
  have "0 < x"
    using assms(1) zero_less_power_int [of "2::real" e] by linarith
  moreover have "expo x = e"
    using expo_eq [OF assms(1,2)] assms(3) by simp
  ultimately show ?thesis
    by (simp add: fl_pos ulp_def)
qed

lemma fl_eval_subnormal:
  assumes "0 < x" and "x < 2 powi (- 1022)"
  shows "fl x = 2 powi (- 1074) * of_int (rne (x / 2 powi (- 1074)))"
proof -
  have "2 powi \<lfloor>log 2 x\<rfloor> \<le> x"
    using expo_bounds [OF assms(1)] by simp
  with assms(2) have "(2::real) powi \<lfloor>log 2 x\<rfloor> < 2 powi (- 1022)"
    by linarith
  then have "\<lfloor>log 2 x\<rfloor> < - 1022"
    by (simp only: pow2_less_iff)
  then have "expo x = - 1022"
    by (simp add: expo_def)
  with assms(1) show ?thesis
    by (simp add: fl_pos ulp_def)
qed


lemma mantissa_le:
  assumes "0 < x"
  shows "rne (x / ulp x) \<le> 2 ^ 53"
proof -
  have "x \<le> 2 powi (expo x + 1)"
    using expo_upper [OF assms] by simp
  also have "\<dots> = 2 powi 53 * ulp x"
    by (simp only: ulp_times_53 [symmetric] mult.commute)
  finally have "x / ulp x \<le> 2 powi 53"
    by (simp only: pos_divide_le_eq [OF ulp_pos])
  then have "rne (x / ulp x) \<le> rne (of_int (2 ^ 53))"
    by (intro rne_mono) simp
  then show ?thesis
    by (simp only: rne_of_int)
qed

lemma fl_repr_pos:
  assumes "0 < m" and "m < 2 ^ 53" and "- 1074 \<le> e"
  shows "fl (of_int m * 2 powi e) = of_int m * 2 powi e"
proof -
  define x :: real where "x = of_int m * 2 powi e"
  have pos: "0 < x"
    using assms(1) by (simp add: x_def)
  have low: "expo x - 52 \<le> e"
  proof (cases "- 1022 < expo x")
    case True
    with pos have "2 powi expo x \<le> x"
      by (rule expo_lower)
    also have "x < of_int (2 ^ 53) * 2 powi e"
      unfolding x_def using assms(2)
      by (intro mult_strict_right_mono) (simp_all only: of_int_less_iff zero_less_power_int zero_less_numeral)
    also have "\<dots> = 2 powi (53 + e)"
      by (simp add: pow2_add)
    finally have "expo x < 53 + e"
      by (simp only: pow2_less_iff)
    then show ?thesis by simp
  next
    case False
    with expo_ge [of x] have "expo x = - 1022" by simp
    with assms(3) show ?thesis by simp
  qed
  define k where "k = nat (e - (expo x - 52))"
  have "2 powi e = ulp x * 2 ^ k"
  proof -
    have "expo x - 52 + int k = e"
      using low by (simp add: k_def)
    then have "2 powi e = (2::real) powi (expo x - 52) * 2 powi (int k)"
      by (simp only: pow2_add [symmetric])
    then show ?thesis
      by (simp add: ulp_def)
  qed
  then have pw: "2 powi e = ulp x * 2 ^ k" .
  have "x = of_int m * 2 powi e"
    by (fact x_def)
  also have "\<dots> = of_int m * (ulp x * 2 ^ k)"
    by (simp only: pw)
  also have "\<dots> = of_int (m * 2 ^ k) * ulp x"
    by (simp add: mult_ac)
  finally have "x = of_int (m * 2 ^ k) * ulp x" .
  then have "x / ulp x = of_int (m * 2 ^ k)"
    by (simp only: nonzero_divide_eq_eq [OF ulp_neq_0])
  then have "rne (x / ulp x) = m * 2 ^ k"
    by (simp only: rne_of_int)
  then have "fl x = ulp x * of_int (m * 2 ^ k)"
    using pos by (simp add: fl_pos)
  also have "\<dots> = of_int (m * 2 ^ k) * ulp x"
    by (rule mult.commute)
  also have "\<dots> = x"
    using \<open>x = of_int (m * 2 ^ k) * ulp x\<close> by (rule sym)
  finally show ?thesis
    by (simp only: x_def)
qed

lemma fl_repr:
  assumes "\<bar>m\<bar> < 2 ^ 53" and "- 1074 \<le> e"
  shows "fl (of_int m * 2 powi e) = of_int m * 2 powi e"
proof -
  consider "0 < m" | "m = 0" | "m < 0" by linarith
  then show ?thesis
  proof cases
    case 1
    with assms show ?thesis by (intro fl_repr_pos) simp_all
  next
    case 2
    then show ?thesis by simp
  next
    case 3
    with assms have "fl (of_int (- m) * 2 powi e) = of_int (- m) * 2 powi e"
      by (intro fl_repr_pos) simp_all
    then have "fl (- (of_int m * 2 powi e)) = - (of_int m * 2 powi e)"
      by simp
    then show ?thesis
      by (simp only: fl_minus neg_equal_iff_equal)
  qed
qed

lemma fl_idem_pos:
  assumes "0 < x"
  shows "fl (fl x) = fl x"
proof -
  define M where "M = rne (x / ulp x)"
  have val: "fl x = of_int M * 2 powi (expo x - 52)"
    using assms by (simp add: fl_pos M_def ulp_def)
  have M: "0 \<le> M" "M \<le> 2 ^ 53"
    unfolding M_def using assms mantissa_le [OF assms]
    by (simp_all add: rne_nonneg)
  have e: "- 1074 \<le> expo x - 52"
    using expo_ge [of x] by simp
  show ?thesis
  proof (cases "M = 2 ^ 53")
    case True
    have "expo x - 52 + 1 = expo x - 51" by simp
    then have "(2::real) powi (expo x - 51) = 2 powi (expo x - 52) * 2 powi 1"
      by (simp only: pow2_add [symmetric])
    then have "fl x = of_int (2 ^ 52) * 2 powi (expo x - 51)"
      using True by (simp add: val)
    moreover have "fl (of_int (2 ^ 52) * 2 powi (expo x - 51)) = of_int (2 ^ 52) * 2 powi (expo x - 51)"
      using e by (intro fl_repr) simp_all
    ultimately show ?thesis by simp
  next
    case False
    with M have "\<bar>M\<bar> < 2 ^ 53" by simp
    then have "fl (of_int M * 2 powi (expo x - 52)) = of_int M * 2 powi (expo x - 52)"
      using e by (rule fl_repr)
    then show ?thesis by (simp only: val)
  qed
qed

lemma fl_idem [simp]: "fl (fl x) = fl x"
proof -
  consider "0 < x" | "x = 0" | "x < 0" by linarith
  then show ?thesis
  proof cases
    case 1
    then show ?thesis by (rule fl_idem_pos)
  next
    case 2
    then show ?thesis by simp
  next
    case 3
    then have "fl (fl (- x)) = fl (- x)"
      by (intro fl_idem_pos) simp
    then show ?thesis
      by (simp add: fl_minus)
  qed
qed

lemma is_double_fl [simp]: "is_double (fl x)"
  by (simp add: is_double_def)

lemma fl_error:
  assumes "0 < x"
  shows "\<bar>fl x - x\<bar> \<le> ulp x / 2"
proof -
  have "fl x - x = ulp x * (of_int (rne (x / ulp x)) - x / ulp x)"
    using assms by (simp add: fl_pos algebra_simps)
  then have "\<bar>fl x - x\<bar> = ulp x * \<bar>of_int (rne (x / ulp x)) - x / ulp x\<bar>"
    by (simp add: abs_mult)
  also have "\<dots> \<le> ulp x * (1/2)"
    by (intro mult_left_mono rne_error) simp
  finally show ?thesis by simp
qed



lemma fl_of_int:
  assumes "\<bar>m\<bar> < 2 ^ 53"
  shows "fl (of_int m) = of_int m"
  using fl_repr [OF assms, of 0] by simp

lemma fl_dyadic:
  assumes "\<bar>m\<bar> < 2 ^ 53" and "k \<le> 1074"
  shows "fl (of_int m / 2 ^ k) = of_int m / 2 ^ k"
proof -
  have "(2::real) powi (- int k) = 1 / 2 ^ k"
    by (simp add: power_int_minus_divide)
  moreover have "fl (of_int m * 2 powi (- int k)) = of_int m * 2 powi (- int k)"
    using assms by (intro fl_repr) simp_all
  ultimately show ?thesis by simp
qed

lemma ulp_relative:
  assumes "0 < x" and "- 1022 < expo x"
  shows "ulp x \<le> x * 2 powi (- 52)"
proof -
  have "expo x + (- 52) = expo x - 52" by simp
  then have "ulp x = 2 powi expo x * 2 powi (- 52)"
    unfolding ulp_def by (simp only: pow2_add [symmetric])
  also have "\<dots> \<le> x * 2 powi (- 52)"
    using expo_lower [OF assms] by (intro mult_right_mono) simp_all
  finally show ?thesis .
qed

lemma ulp_subnormal: "expo x = - 1022 \<Longrightarrow> ulp x = 2 powi (- 1074)"
  by (simp add: ulp_def)

lemma ulp_grid: "\<exists>k::nat. ulp x = 2 powi (- 1074) * 2 ^ k"
proof -
  have "- 1074 + int (nat (expo x + 1022)) = expo x - 52"
    using expo_ge [of x] by simp
  then have "ulp x = 2 powi (- 1074) * 2 powi (int (nat (expo x + 1022)))"
    unfolding ulp_def by (simp only: pow2_add [symmetric])
  then show ?thesis
    by (auto simp only: power_int_of_nat)
qed

lemma fl_grid: "0 \<le> x \<Longrightarrow> \<exists>n::int. 0 \<le> n \<and> fl x = of_int n * 2 powi (- 1074)"
proof (cases "x = 0")
  case True
  then show ?thesis
    by (intro exI [of _ 0]) simp
next
  case False
  assume "0 \<le> x"
  with False have pos: "0 < x" by simp
  obtain k :: nat where k: "ulp x = 2 powi (- 1074) * 2 ^ k"
    using ulp_grid by blast
  let ?M = "rne (x / ulp x)"
  have "0 \<le> ?M"
    using pos by (intro rne_nonneg divide_nonneg_nonneg) simp_all
  moreover have "fl x = of_int (?M * 2 ^ k) * 2 powi (- 1074)"
    using pos by (simp add: fl_pos k mult_ac)
  ultimately show ?thesis
    by (intro exI [of _ "?M * 2 ^ k"]) simp
qed

lemma double_below_one:
  assumes "is_double r" and "r < 1"
  shows "r \<le> 1 - 2 powi (- 53)"
proof (cases "r < 1/2")
  case True
  then show ?thesis by simp
next
  case False
  then have "2 powi (- 1) \<le> r" and "r < 2 powi (- 1 + 1)"
    using assms(2) by simp_all
  then have "fl r = 2 powi (- 1 - 52) * of_int (rne (r / 2 powi (- 1 - 52)))"
    by (rule fl_eval) simp
  then have r: "r = of_int (rne (r / 2 powi (- 53))) * 2 powi (- 53)"
    using assms(1) by (simp add: is_double_def mult.commute)
  define M where "M = rne (r / 2 powi (- 53))"
  from r assms(2) have "of_int M * 2 powi (- 53) < (1::real)"
    by (simp only: M_def)
  then have "(of_int M :: real) < of_int (2 ^ 53)"
    by simp
  then have "M < 2 ^ 53"
    by (simp only: of_int_less_iff)
  then have "M \<le> 2 ^ 53 - 1"
    by simp
  then have "(of_int M :: real) \<le> of_int (2 ^ 53 - 1)"
    by (simp only: of_int_le_iff)
  then have "of_int M * 2 powi (- 53) \<le> (of_int (2 ^ 53 - 1) :: real) * 2 powi (- 53)"
    by (intro mult_right_mono) simp_all
  with r show ?thesis
    by (simp add: M_def)
qed

section \<open>The literals of the source\<close>

lemma fl_3_10: "fl (3/10) = 5404319552844595 / 2 ^ 54"
  using fl_eval [of "- 2" "3/10"] by (simp add: rne_def)

lemma fl_2_10: "fl (2/10) = 3602879701896397 / 2 ^ 54"
  using fl_eval [of "- 3" "2/10"] by (simp add: rne_def)

lemma fl_1_10: "fl (1/10) = 3602879701896397 / 2 ^ 55"
  using fl_eval [of "- 4" "1/10"] by (simp add: rne_def)

lemma fl_995_1000: "fl (995/1000) = 8962163258467287 / 2 ^ 53"
  using fl_eval [of "- 1" "995/1000"] by (simp add: rne_def)

lemma fl_8_10: "fl (8/10) = 3602879701896397 / 2 ^ 52"
  using fl_eval [of "- 1" "8/10"] by (simp add: rne_def)

lemma fl_6_10: "fl (6/10) = 5404319552844595 / 2 ^ 53"
  using fl_eval [of "- 1" "6/10"] by (simp add: rne_def)

lemma literal_values:
  "fl (3/10) = 5404319552844595 / 2 ^ 54" "fl (1/5) = 3602879701896397 / 2 ^ 54"
  "fl (1/10) = 3602879701896397 / 2 ^ 55" "fl (199/200) = 8962163258467287 / 2 ^ 53"
  "fl (4/5) = 3602879701896397 / 2 ^ 52" "fl (3/5) = 5404319552844595 / 2 ^ 53"
  using fl_3_10 fl_2_10 fl_1_10 fl_995_1000 fl_8_10 fl_6_10 by simp_all

lemma fl_numeral [simp]: "fl 1 = 1" "fl (1/2) = 1/2" "fl (1/4) = 1/4" "fl (1/8) = 1/8"
  "fl 20 = 20" "fl 100 = 100" "fl 2000 = 2000" "fl 5000 = 5000" "fl 85 = 85" "fl 22 = 22"
  "fl 95 = 95"
  using fl_of_int [of 1] fl_dyadic [of 1 1] fl_dyadic [of 1 2] fl_dyadic [of 1 3]
    fl_of_int [of 20] fl_of_int [of 100] fl_of_int [of 2000] fl_of_int [of 5000]
    fl_of_int [of 85] fl_of_int [of 22] fl_of_int [of 95]
  by simp_all

lemma fl_numeral_int [simp]: "numeral n < (2::int) ^ 53 \<Longrightarrow> fl (numeral n) = numeral n"
  using fl_of_int [of "numeral n"] by simp

lemma literal_bounds:
  "1/4 \<le> fl (3/10)" "fl (3/10) \<le> 3/10" "1/8 < fl (2/10)" "fl (2/10) < fl (3/10)"
  "1/2 < fl (995/1000)" "fl (995/1000) < 1023/1024" "0 < fl (1/10)"
  by (simp_all add: literal_values)

section \<open>Auxiliary facts\<close>

lemma length_pushInsight: "length (pushInsight i prev) \<le> 5"
  by (simp add: pushInsight_def)

lemma pushInsight_take: "pushInsight i (take 5 xs) = take 5 (i # xs)"
  by (simp add: pushInsight_def take_Cons')

lemma foldl_pushInsight:
  "length prev \<le> 5 \<Longrightarrow> foldl (\<lambda>l a. pushInsight a l) prev xs = take 5 (rev xs @ prev)"
proof (induction xs rule: rev_induct)
  case Nil
  then show ?case by simp
next
  case (snoc x xs)
  have "foldl (\<lambda>l a. pushInsight a l) prev (xs @ [x]) =
          pushInsight x (foldl (\<lambda>l a. pushInsight a l) prev xs)"
    by simp
  also have "\<dots> = pushInsight x (take 5 (rev xs @ prev))"
    using snoc by simp
  also have "\<dots> = take 5 (x # rev xs @ prev)"
    by (rule pushInsight_take)
  finally show ?case by simp
qed

lemma foldl_pushInsight_length:
  "length prev \<le> 5 \<Longrightarrow> length (foldl (\<lambda>l a. pushInsight a l) prev xs) \<le> 5"
  by (simp add: foldl_pushInsight)

lemma detectVehicle_cases:
  "detectVehicle now v s =
     (if detected v then (v, s)
      else if speed v < fl (2/10) then
        (v\<lparr>detected := True\<rparr>,
         s\<lparr>incidentDetected := True,
           aiInsights := pushInsight (stallInsight now (clockReads s) v) (aiInsights s),
           clockReads := clockReads s + 2\<rparr>)
      else if temperature v > 30 then
        (v\<lparr>detected := True\<rparr>,
         s\<lparr>aiInsights := pushInsight (heatInsight now (clockReads s) v) (aiInsights s),
           clockReads := clockReads s + 2\<rparr>)
      else (v, s))"
  by (simp add: detectVehicle_def stallRule_def heatRule_def)

lemma detectIncidents_Cons:
  "detectIncidents now (v # vs) s =
     (fst (detectVehicle now v s) # fst (detectIncidents now vs (snd (detectVehicle now v s))),
      snd (detectIncidents now vs (snd (detectVehicle now v s))))"
  by (simp split: prod.splits)

text \<open>A pass, as the observers describe it.\<close>

lemma detectIncidents_pass:
  "detectIncidents now vs s =
     (map markDetected vs,
      s\<lparr>incidentDetected :=
          incidentDetected s \<or> (\<exists>v\<in>set vs. \<not> detected v \<and> speed v < fl (2/10)),
        aiInsights :=
          foldl (\<lambda>l a. pushInsight a l) (aiInsights s)
            (map snd (passAlerts now (clockReads s) vs)),
        clockReads := clockReads s + 2 * length (passAlerts now (clockReads s) vs)\<rparr>)"
proof (induction vs arbitrary: s)
  case Nil
  show ?case by simp
next
  case (Cons v vs)
  show ?case
    unfolding detectIncidents_Cons Cons.IH
    by (simp add: detectVehicle_cases markDetected_def)
qed

lemma detectIncidents_fst: "fst (detectIncidents now vs s) = map markDetected vs"
  by (simp add: detectIncidents_pass)

lemma detectIncidents_log:
  "aiInsights (snd (detectIncidents now vs s)) =
     foldl (\<lambda>l a. pushInsight a l) (aiInsights s) (map snd (passAlerts now (clockReads s) vs))"
  by (simp add: detectIncidents_pass)

lemma markDetected_fields [simp]:
  "vid (markDetected v) = vid v" "position (markDetected v) = position v"
  "speed (markDetected v) = speed v" "temperature (markDetected v) = temperature v"
  "detected v \<Longrightarrow> detected (markDetected v)"
  by (simp_all add: markDetected_def)

lemma advanceVehicle_fields [simp]:
  "vid (advanceVehicle r v) = vid v" "detected (advanceVehicle r v) = detected v"
  "temperature (advanceVehicle r v) = temperature v"
  "position (advanceVehicle r v) = fl (position v + speed v)"
  by (simp_all add: advanceVehicle_def)

text \<open>The detection pass writes three hooks only.\<close>

lemma detectIncidents_frame:
  assumes "\<And>s i a c. f (s\<lparr>incidentDetected := i, aiInsights := a, clockReads := c\<rparr>) = f s"
  shows "f (snd (detectIncidents now vs s)) = f s"
  by (simp add: detectIncidents_pass assms)

lemma vehicleStep_eq:
  "vehicleStep now d s =
     (snd (detectIncidents now (moveVehicles (slowdownDraw d) (vehicles s)) s))
       \<lparr>vehicleCount := length (moveVehicles (slowdownDraw d) (vehicles s)),
        vehicles := map markDetected (moveVehicles (slowdownDraw d) (vehicles s))\<rparr>"
  by (simp add: vehicleStep_def detectIncidents_pass)

lemma vehicleStep_frame:
  assumes "\<And>s i a c. f (s\<lparr>incidentDetected := i, aiInsights := a, clockReads := c\<rparr>) = f s"
    and "\<And>s n vs. f (s\<lparr>vehicleCount := n, vehicles := vs\<rparr>) = f s"
  shows "f (vehicleStep now d s) = f s"
  by (simp only: vehicleStep_eq assms(2) detectIncidents_frame [of f, OF assms(1)])

lemma vehicleStep_sensors:
  "airQuality (vehicleStep now d s) = airQuality s"
  "temperature_s (vehicleStep now d s) = temperature_s s"
  "visibility (vehicleStep now d s) = visibility s"
  "isRunning (vehicleStep now d s) = isRunning s"
  "vehicleIdCounter (vehicleStep now d s) = vehicleIdCounter s"
  "lastSpawnTime (vehicleStep now d s) = lastSpawnTime s"
  by (rule vehicleStep_frame; simp)+

lemma spawnStep_sensors:
  "airQuality (spawnStep d t s) = airQuality s"
  "temperature_s (spawnStep d t s) = temperature_s s"
  "visibility (spawnStep d t s) = visibility s"
  "isRunning (spawnStep d t s) = isRunning s"
  "aiInsights (spawnStep d t s) = aiInsights s"
  "incidentDetected (spawnStep d t s) = incidentDetected s"
  "clockReads (spawnStep d t s) = clockReads s"
  by (simp_all add: spawnStep_def split: prod.splits)

lemma vehicleStep_vehicles:
  "vehicles (vehicleStep now d s) = map markDetected (moveVehicles (slowdownDraw d) (vehicles s))"
  by (simp add: vehicleStep_eq)

lemma vehicleStep_aiInsights:
  "aiInsights (vehicleStep now d s) =
     foldl (\<lambda>l a. pushInsight a l) (aiInsights s)
       (map snd (passAlerts now (clockReads s) (moveVehicles (slowdownDraw d) (vehicles s))))"
  by (simp add: vehicleStep_eq detectIncidents_pass)

lemma animate_vehicles:
  "isRunning s \<Longrightarrow>
   vehicles (animate now d t s) =
     map markDetected (moveVehicles (slowdownDraw d) (vehicles (spawnStep d t s)))"
  by (simp add: animate_def sensorStep_def vehicleStep_vehicles)

lemma animate_aiInsights:
  "isRunning s \<Longrightarrow>
   aiInsights (animate now d t s) =
     foldl (\<lambda>l a. pushInsight a l) (aiInsights s) (map snd (tickAlerts now d t s))"
  by (simp add: animate_def sensorStep_def vehicleStep_aiInsights tickAlerts_def
      spawnStep_sensors)

lemma animate_stopped: "\<not> isRunning s \<Longrightarrow> animate now d t s = s"
  by (simp add: animate_def)

lemma animate_frame:
  "isRunning (animate now d t s) = isRunning s"
  "vehicleIdCounter (animate now d t s) = vehicleIdCounter (spawnStep d t s) \<or> \<not> isRunning s"
  by (simp_all add: animate_def sensorStep_def vehicleStep_sensors spawnStep_sensors)

lemma moveVehicles_below_100: "v \<in> set (moveVehicles r prev) \<Longrightarrow> position v < 100"
  by (simp add: moveVehicles_def)

lemma animate_below_100:
  "isRunning s \<Longrightarrow> v \<in> set (vehicles (animate now d t s)) \<Longrightarrow> position v < 100"
  using moveVehicles_below_100 by (auto simp: animate_vehicles)

lemma survivors_ids:
  "map vid (filter (\<lambda>v. position v < 100) (mapVehicles r i prev)) =
   map vid (filter (\<lambda>v. fl (position v + speed v) < 100) prev)"
  by (induction prev arbitrary: i) simp_all

lemma run_Nil [simp]: "run now [] = initial"
  by (simp add: run_def runFrom_def)

lemma run_snoc: "run now (as @ [a]) = step now (run now as) a"
  by (simp add: run_def runFrom_def)

lemma runFrom_snoc: "runFrom now s (as @ [a]) = step now (runFrom now s as) a"
  by (simp add: runFrom_def)

lemma run_invariant:
  assumes "P initial" and "\<And>s a. P s \<Longrightarrow> P (step now s a)"
  shows "P (run now as)"
proof (induction as rule: rev_induct)
  case Nil
  show ?case using assms(1) by simp
next
  case (snoc a as)
  then show ?case by (simp only: run_snoc assms(2))
qed

lemma run_valid_invariant:
  assumes "list_all valid_action as" and "P initial"
    and "\<And>s a. P s \<Longrightarrow> valid_action a \<Longrightarrow> P (step now s a)"
  shows "P (run now as)"
  using assms(1)
proof (induction as rule: rev_induct)
  case Nil
  show ?case using assms(2) by simp
next
  case (snoc a as)
  then show ?case by (simp add: run_snoc assms(3))
qed

lemma step_log_length:
  assumes "length (aiInsights s) \<le> 5"
  shows "length (aiInsights (step now s a)) \<le> 5"
proof (cases a)
  case (Animate d t)
  show ?thesis
  proof (cases "isRunning s")
    case True
    then show ?thesis
      using assms Animate by (simp add: animate_aiInsights foldl_pushInsight_length)
  next
    case False
    then show ?thesis
      using assms Animate by (simp add: animate_stopped)
  qed
qed (use assms in \<open>simp_all add: resetSimulation_def\<close>)

lemma run_log_length: "length (aiInsights (run now as)) \<le> 5"
  by (rule run_invariant) (simp add: initial_def, rule step_log_length)

lemma step_below_100:
  assumes "\<forall>v\<in>set (vehicles s). position v < 100"
  shows "\<forall>v\<in>set (vehicles (step now s a)). position v < 100"
proof (cases a)
  case (Animate d t)
  show ?thesis
  proof (cases "isRunning s")
    case True
    then show ?thesis
      using Animate animate_below_100 [of s _ now d t] by simp
  next
    case False
    then show ?thesis
      using Animate assms by (simp add: animate_def)
  qed
qed (use assms in \<open>simp_all add: resetSimulation_def\<close>)

lemma step_environment:
  assumes "70 \<le> airQuality s \<and> airQuality s \<le> 100 \<and>
           18 \<le> temperature_s s \<and> temperature_s s \<le> 28 \<and>
           80 \<le> visibility s \<and> visibility s \<le> 100"
  shows "70 \<le> airQuality (step now s a) \<and> airQuality (step now s a) \<le> 100 \<and>
         18 \<le> temperature_s (step now s a) \<and> temperature_s (step now s a) \<le> 28 \<and>
         80 \<le> visibility (step now s a) \<and> visibility (step now s a) \<le> 100"
proof (cases a)
  case (Animate d t)
  then show ?thesis
    using assms by (simp add: animate_def sensorStep_def)
qed (use assms in \<open>simp_all add: resetSimulation_def\<close>)

text \<open>The alerts of a pass.\<close>

lemma passAlerts_source:
  "(n, a) \<in> set (passAlerts now k vs) \<Longrightarrow>
   \<exists>v\<in>set vs. \<exists>k'. vid v = n \<and> \<not> detected v \<and>
     (speed v < fl (2/10) \<and> a = stallInsight now k' v \<or>
      \<not> speed v < fl (2/10) \<and> temperature v > 30 \<and> a = heatInsight now k' v)"
proof (induction vs arbitrary: k)
  case Nil
  then show ?case by simp
next
  case (Cons v vs)
  then show ?case
    by (fastforce split: if_splits)
qed

lemma passAlerts_tags:
  "map fst (passAlerts now k vs) =
     map vid (filter (\<lambda>v. \<not> detected v \<and> (speed v < fl (2/10) \<or> temperature v > 30)) vs)"
  by (induction vs arbitrary: k) auto

lemma passAlerts_distinct:
  "distinct (map vid vs) \<Longrightarrow> distinct (map fst (passAlerts now k vs))"
  by (simp only: passAlerts_tags distinct_map_filter)

lemma passAlerts_stall:
  "v \<in> set vs \<Longrightarrow> \<not> detected v \<Longrightarrow> speed v < fl (2/10) \<Longrightarrow>
   \<exists>k'. (vid v, stallInsight now k' v) \<in> set (passAlerts now k vs)"
proof (induction vs arbitrary: k)
  case Nil
  then show ?case by simp
next
  case (Cons w vs)
  show ?case
  proof (cases "v = w")
    case True
    with Cons.prems show ?thesis
      by (intro exI [of _ k]) simp
  next
    case False
    with Cons.prems have "v \<in> set vs" by simp
    then have "\<exists>k'. (vid v, stallInsight now k' v) \<in> set (passAlerts now (k + 2) vs)"
      and "\<exists>k'. (vid v, stallInsight now k' v) \<in> set (passAlerts now k vs)"
      using Cons.prems(2,3) by (auto intro: Cons.IH)
    then show ?thesis
      by auto
  qed
qed

text \<open>Ids.\<close>

lemma moveVehicles_ids:
  "map vid (moveVehicles r prev) = map vid (filter (\<lambda>v. fl (position v + speed v) < 100) prev)"
  unfolding moveVehicles_def by (rule survivors_ids)

lemma mapVehicles_origin:
  "v' \<in> set (mapVehicles r i prev) \<Longrightarrow> \<exists>v\<in>set prev. \<exists>x. v' = advanceVehicle x v"
  by (induction prev arbitrary: i) auto

lemma moveVehicles_origin:
  assumes "v' \<in> set (moveVehicles r prev)"
  shows "\<exists>v\<in>set prev. \<exists>x. v' = advanceVehicle x v"
  using assms mapVehicles_origin [of v' r 0 prev] by (simp add: moveVehicles_def)

lemma spawnStep_cases:
  "vehicles (spawnStep d t s) = vehicles s \<and> vehicleIdCounter (spawnStep d t s) = vehicleIdCounter s \<or>
   vehicles (spawnStep d t s) = vehicles s @ [fst (spawnVehicle d (vehicleIdCounter s))] \<and>
   vehicleIdCounter (spawnStep d t s) = Suc (vehicleIdCounter s)"
  by (simp add: spawnStep_def spawnVehicle_def Let_def)

lemma spawnVehicle_vid [simp]: "vid (fst (spawnVehicle d c)) = c"
  by (simp add: spawnVehicle_def Let_def)

lemma spawnVehicle_detected [simp]: "detected (fst (spawnVehicle d c)) = False"
  by (simp add: spawnVehicle_def Let_def)

lemma spawnStep_idsInOrder:
  assumes "idsInOrder s"
  shows "idsInOrder (spawnStep d t s)"
proof -
  from assms have dist: "distinct (map vid (vehicles s))"
    and below: "\<forall>v\<in>set (vehicles s). vid v < vehicleIdCounter s"
    by (simp_all add: idsInOrder_def)
  from below have fresh: "vehicleIdCounter s \<notin> vid ` set (vehicles s)"
    by fastforce
  from spawnStep_cases [of d t s] show ?thesis
  proof
    assume "vehicles (spawnStep d t s) = vehicles s \<and>
      vehicleIdCounter (spawnStep d t s) = vehicleIdCounter s"
    with assms show ?thesis
      by (simp add: idsInOrder_def)
  next
    assume "vehicles (spawnStep d t s) = vehicles s @ [fst (spawnVehicle d (vehicleIdCounter s))] \<and>
      vehicleIdCounter (spawnStep d t s) = Suc (vehicleIdCounter s)"
    with dist below fresh show ?thesis
      by (simp add: idsInOrder_def less_Suc_eq)
  qed
qed

lemma animate_ids:
  assumes "isRunning s"
  shows "map vid (vehicles (animate now d t s)) =
     map vid (filter (\<lambda>v. fl (position v + speed v) < 100) (vehicles (spawnStep d t s)))"
proof -
  have "map vid (map markDetected xs) = map vid xs" for xs
    by (simp add: comp_def)
  then show ?thesis
    using assms by (simp only: animate_vehicles moveVehicles_ids)
qed

lemma animate_counter:
  "isRunning s \<Longrightarrow> vehicleIdCounter (animate now d t s) = vehicleIdCounter (spawnStep d t s)"
  by (simp add: animate_def sensorStep_def vehicleStep_sensors)

lemma animate_idsInOrder:
  assumes "idsInOrder s"
  shows "idsInOrder (animate now d t s)"
proof (cases "isRunning s")
  case True
  have ok: "idsInOrder (spawnStep d t s)"
    using assms by (rule spawnStep_idsInOrder)
  have "set (map vid (vehicles (animate now d t s))) \<subseteq> set (map vid (vehicles (spawnStep d t s)))"
    unfolding animate_ids [OF True] by auto
  moreover have "distinct (map vid (vehicles (animate now d t s)))"
    unfolding animate_ids [OF True] using ok by (simp add: idsInOrder_def distinct_map_filter)
  ultimately show ?thesis
    using ok unfolding idsInOrder_def animate_counter [OF True] by auto
next
  case False
  with assms show ?thesis by (simp add: animate_stopped)
qed

lemma step_idsInOrder: "idsInOrder s \<Longrightarrow> idsInOrder (step now s a)"
  by (cases a) (simp_all add: animate_idsInOrder, simp_all add: idsInOrder_def resetSimulation_def)

lemma run_idsInOrder: "idsInOrder (run now as)"
  by (rule run_invariant) (simp add: idsInOrder_def initial_def, rule step_idsInOrder)

lemma tickAlerts_distinct:
  assumes "idsInOrder s"
  shows "distinct (map fst (tickAlerts now d t s))"
proof -
  have "distinct (map vid (vehicles (spawnStep d t s)))"
    using spawnStep_idsInOrder [OF assms] by (simp add: idsInOrder_def)
  then have "distinct (map vid (moveVehicles (slowdownDraw d) (vehicles (spawnStep d t s))))"
    by (simp add: moveVehicles_ids distinct_map_filter)
  then show ?thesis
    unfolding tickAlerts_def by (rule passAlerts_distinct)
qed

text \<open>Settled vehicles.\<close>

lemma settled_spawnStep: "settled n s \<Longrightarrow> settled n (spawnStep d t s)"
  using spawnStep_cases [of d t s] by (auto simp: settled_def)

lemma settled_moved:
  assumes "settled n s" and "v' \<in> set (moveVehicles r (vehicles s))" and "vid v' = n"
  shows "detected v'"
proof -
  from assms(2) obtain v x where "v \<in> set (vehicles s)" and "v' = advanceVehicle x v"
    using moveVehicles_origin by blast
  with assms(1,3) show ?thesis
    by (simp add: settled_def)
qed

lemma settled_animate:
  assumes "settled n s"
  shows "settled n (animate now d t s)"
proof (cases "isRunning s")
  case True
  have s1: "settled n (spawnStep d t s)"
    using assms by (rule settled_spawnStep)
  then have "n < vehicleIdCounter (animate now d t s)"
    by (simp add: animate_counter [OF True] settled_def)
  moreover have "detected v" if "v \<in> set (vehicles (animate now d t s))" and "vid v = n" for v
  proof -
    from that(1) obtain w where w: "w \<in> set (moveVehicles (slowdownDraw d) (vehicles (spawnStep d t s)))"
      and v: "v = markDetected w"
      by (auto simp: animate_vehicles [OF True])
    with that(2) have "detected w"
      using settled_moved [OF s1 w] by simp
    with v show ?thesis by simp
  qed
  ultimately show ?thesis
    by (simp add: settled_def)
next
  case False
  with assms show ?thesis by (simp add: animate_stopped)
qed

lemma settled_step: "settled n s \<Longrightarrow> a \<noteq> Reset \<Longrightarrow> settled n (step now s a)"
  by (cases a) (simp_all add: settled_animate, simp_all add: settled_def)

lemma settled_runFrom:
  "settled n s \<Longrightarrow> Reset \<notin> set as \<Longrightarrow> settled n (runFrom now s as)"
proof (induction as rule: rev_induct)
  case Nil
  then show ?case by (simp add: runFrom_def)
next
  case (snoc a as)
  then have "settled n (runFrom now s as)" and "a \<noteq> Reset"
    by auto
  then have "settled n (step now (runFrom now s as) a)"
    by (rule settled_step)
  then show ?case
    by (simp only: runFrom_snoc)
qed

lemma settled_no_alert:
  assumes "settled n s"
  shows "n \<notin> fst ` set (tickAlerts now d t s)"
proof
  assume "n \<in> fst ` set (tickAlerts now d t s)"
  then obtain a where "(n, a) \<in> set (tickAlerts now d t s)"
    by force
  then obtain v where "v \<in> set (moveVehicles (slowdownDraw d) (vehicles (spawnStep d t s)))"
    and "vid v = n" and "\<not> detected v"
    unfolding tickAlerts_def using passAlerts_source by blast
  then show False
    using settled_moved [OF settled_spawnStep [OF assms]] by blast
qed

lemma alert_settles:
  assumes "idsInOrder s" and "isRunning s" and "(n, a) \<in> set (tickAlerts now d t s)"
  shows "settled n (animate now d t s)"
proof -
  let ?moved = "moveVehicles (slowdownDraw d) (vehicles (spawnStep d t s))"
  have ok: "idsInOrder (spawnStep d t s)"
    using assms(1) by (rule spawnStep_idsInOrder)
  have dist: "distinct (map vid ?moved)"
    using ok by (simp add: moveVehicles_ids idsInOrder_def distinct_map_filter)
  from assms(3) obtain v where v: "v \<in> set ?moved" "vid v = n" "\<not> detected v"
    "speed v < fl (2/10) \<or> temperature v > 30"
    unfolding tickAlerts_def using passAlerts_source by blast
  from v(1) obtain u x where "u \<in> set (vehicles (spawnStep d t s))" and "v = advanceVehicle x u"
    using moveVehicles_origin by blast
  with v(2) have "n \<in> set (map vid (vehicles (spawnStep d t s)))"
    by auto
  then have "n < vehicleIdCounter (animate now d t s)"
    using ok by (auto simp: animate_counter [OF assms(2)] idsInOrder_def)
  moreover have "detected w'" if "w' \<in> set (vehicles (animate now d t s))" and "vid w' = n" for w'
  proof -
    from that(1) obtain w where w: "w \<in> set ?moved" "w' = markDetected w"
      by (auto simp: animate_vehicles [OF assms(2)])
    with that(2) have "vid w = vid v"
      using v(2) by simp
    with dist w(1) v(1) have "w = v"
      by (simp add: distinct_map inj_on_def)
    with w(2) v(3,4) show ?thesis
      by (auto simp: markDetected_def)
  qed
  ultimately show ?thesis
    by (simp add: settled_def)
qed

text \<open>Evaluation at concrete inputs.\<close>

lemma fl_dyadics [simp]:
  "fl (3/2) = 3/2" "fl (15/4) = 15/4" "fl (95/4) = 95/4" "fl (105/8) = 105/8"
  "fl (265/8) = 265/8" "fl (1023/1024) = 1023/1024"
  using fl_dyadic [of 3 1] fl_dyadic [of 15 2] fl_dyadic [of 95 2] fl_dyadic [of 105 3]
    fl_dyadic [of 265 3] fl_dyadic [of 1023 10]
  by simp_all

lemma fl_abs_le:
  assumes "\<bar>x\<bar> \<le> b" and "fl b = b"
  shows "\<bar>fl x\<bar> \<le> b"
proof -
  from assms(1) have "- b \<le> x" and "x \<le> b"
    by linarith+
  then have "fl (- b) \<le> fl x" and "fl x \<le> fl b"
    by (simp_all add: fl_mono)
  with assms(2) show ?thesis
    by (simp add: fl_minus abs_le_iff)
qed

lemma is_double_values [simp]:
  "is_double 0" "is_double (1/2)" "is_double (1/4)" "is_double (3/4)" "is_double (7/8)"
  "is_double (1023/1024)" "is_double (1 - 1 / 2 ^ 53)"
  using fl_dyadic [of 3 2] fl_dyadic [of 7 3] fl_dyadic [of "2 ^ 53 - 1" 53]
  by (simp_all add: is_double_def)

lemma literal_fixed:
  "fl (5404319552844595 / 18014398509481984) = 5404319552844595 / 18014398509481984"
  "fl (3602879701896397 / 18014398509481984) = 3602879701896397 / 18014398509481984"
  "fl (3602879701896397 / 36028797018963968) = 3602879701896397 / 36028797018963968"
  using fl_idem [of "3/10"] fl_idem [of "1/5"] fl_idem [of "1/10"]
  by (simp_all add: literal_values)

lemmas simulation_defs =
  run_def runFrom_def initial_def animate_def spawnStep_def vehicleStep_def sensorStep_def
  moveVehicles_def advanceVehicle_def spawnVehicle_def js_index_def vehicleTypes_def colors_def
  detectVehicle_def stallRule_def heatRule_def pushInsight_def stallInsight_def heatInsight_def
  getCameraZoneForPosition_def js_round_def resetSimulation_def literal_values literal_fixed

lemmas input_defs =
  steadyClock_def hotSpawnDraws_def truckSpawnDraws_def slowSpawnDraws_def topSpeedDraws_def
  truckRun_def stalledHotVehicle_def valid_draws_def unit_draw_def

text \<open>Spawning.\<close>

lemma top_draw: "unit_draw r \<Longrightarrow> r \<le> 1 - 1 / 2 ^ 53"
  using double_below_one [of r] by (simp add: unit_draw_def power_int_minus_divide)

lemma top_products:
  "fl (5 * (1 - 1 / 2 ^ 53)) = 5629499534213119 / 2 ^ 50"
  "fl ((1 - 1 / 2 ^ 53) * fl (2/10)) = 7205759403792793 / 2 ^ 55"
  "fl ((1 - 1 / 2 ^ 53) * fl (3/10)) = 2702159776422297 / 2 ^ 53"
  using fl_eval [of 2 "5 * (1 - 1 / 2 ^ 53)"]
    fl_eval [of "- 3" "(1 - 1 / 2 ^ 53) * (3602879701896397 / 2 ^ 54)"]
    fl_eval [of "- 2" "(1 - 1 / 2 ^ 53) * (5404319552844595 / 2 ^ 54)"]
  by (simp_all add: literal_values rne_def)

lemma top_sums:
  "fl (fl (3/10) + 7205759403792793 / 2 ^ 55) = 1/2"
  "fl (1/2 + 2702159776422297 / 2 ^ 53) = 7205759403792793 / 2 ^ 53"
  using fl_eval [of "- 2" "5404319552844595 / 2 ^ 54 + 7205759403792793 / 2 ^ 55"]
    fl_dyadic [of 7205759403792793 53]
  by (simp_all add: literal_values rne_def)

lemma vehicleTypes_at:
  fixes i :: int
  assumes "0 \<le> i" and "i < 5"
  shows "js_index vehicleTypes i = (if i = 3 then Some Truck else Some Car)"
proof -
  from assms have "i = 0 \<or> i = 1 \<or> i = 2 \<or> i = 3 \<or> i = 4"
    by presburger
  then show ?thesis
    by (auto simp: js_index_def vehicleTypes_def)
qed

lemma type_index:
  assumes "unit_draw r"
  shows "0 \<le> \<lfloor>fl (r * 5)\<rfloor> \<and> \<lfloor>fl (r * 5)\<rfloor> < 5"
proof -
  from assms have "0 \<le> r * 5"
    by (simp add: unit_draw_def)
  then have low: "0 \<le> fl (r * 5)"
    by (rule fl_nonneg)
  from top_draw [OF assms] have "r * 5 \<le> 5 * (1 - 1 / 2 ^ 53)"
    by simp
  then have "fl (r * 5) \<le> fl (5 * (1 - 1 / 2 ^ 53))"
    by (rule fl_mono)
  then have "fl (r * 5) \<le> 5629499534213119 / 2 ^ 50"
    by (simp only: top_products)
  then have "fl (r * 5) < 5"
    by simp
  with low show ?thesis
    by (simp add: floor_less_iff)
qed

lemma vehicleTypes_lookup:
  assumes "unit_draw r"
  shows "js_index vehicleTypes \<lfloor>fl (r * real (length vehicleTypes))\<rfloor> =
           (if \<lfloor>fl (r * 5)\<rfloor> = 3 then Some Truck else Some Car)"
proof -
  have len: "real (length vehicleTypes) = 5"
    by (simp add: vehicleTypes_def)
  from type_index [OF assms] have "js_index vehicleTypes \<lfloor>fl (r * 5)\<rfloor> =
      (if \<lfloor>fl (r * 5)\<rfloor> = 3 then Some Truck else Some Car)"
    by (intro vehicleTypes_at) simp_all
  then show ?thesis
    by (simp only: len)
qed

lemma spawnVehicle_fields:
  "vtype (fst (spawnVehicle d c)) =
     js_index vehicleTypes \<lfloor>fl (typeDraw d * real (length vehicleTypes))\<rfloor>"
  "speed (fst (spawnVehicle d c)) =
     (if vtype (fst (spawnVehicle d c)) = Some Truck
      then fl (fl (3/10) + fl (speedDraw d * fl (2/10)))
      else fl (1/2 + fl (speedDraw d * fl (3/10))))"
  "position (fst (spawnVehicle d c)) = 0"
  by (simp_all add: spawnVehicle_def Let_def)

lemma truck_speed:
  assumes "unit_draw r"
  shows "fl (3/10) \<le> fl (fl (3/10) + fl (r * fl (2/10)))"
    and "fl (fl (3/10) + fl (r * fl (2/10))) \<le> 1/2"
proof -
  from assms have r: "0 \<le> r" "r \<le> 1"
    by (simp_all add: unit_draw_def)
  have c: "0 \<le> fl (2/10)"
    by (simp add: literal_values)
  from r c have "0 \<le> r * fl (2/10)" and "r * fl (2/10) \<le> fl (2/10)"
    by (simp_all add: mult_left_le_one_le)
  then have "0 \<le> fl (r * fl (2/10))" and "fl (r * fl (2/10)) \<le> fl (fl (2/10))"
    by (simp_all only: fl_nonneg fl_mono)
  then have inner: "0 \<le> fl (r * fl (2/10))" "fl (r * fl (2/10)) \<le> fl (2/10)"
    by (simp_all only: fl_idem)
  have "fl (3/10) + fl (2/10) \<le> 1/2"
    by (simp add: literal_values)
  with inner have "fl (3/10) \<le> fl (3/10) + fl (r * fl (2/10))"
    and "fl (3/10) + fl (r * fl (2/10)) \<le> 1/2"
    by linarith+
  then have "fl (fl (3/10)) \<le> fl (fl (3/10) + fl (r * fl (2/10)))"
    and "fl (fl (3/10) + fl (r * fl (2/10))) \<le> fl (1/2)"
    by (simp_all only: fl_mono)
  moreover have "fl (1/2) = 1/2"
    using fl_dyadic [of 1 1] by simp
  ultimately show "fl (3/10) \<le> fl (fl (3/10) + fl (r * fl (2/10)))"
    and "fl (fl (3/10) + fl (r * fl (2/10))) \<le> 1/2"
    by (simp_all only: fl_idem)
qed

lemma car_speed:
  assumes "unit_draw r"
  shows "1/2 \<le> fl (1/2 + fl (r * fl (3/10)))"
    and "fl (1/2 + fl (r * fl (3/10))) < fl (8/10)"
proof -
  from assms have r: "0 \<le> r" "r \<le> 1 - 1 / 2 ^ 53"
    using top_draw by (simp_all add: unit_draw_def)
  have c: "0 \<le> fl (3/10)"
    by (simp add: literal_values)
  from r c have "0 \<le> r * fl (3/10)" and "r * fl (3/10) \<le> (1 - 1 / 2 ^ 53) * fl (3/10)"
    by (simp_all only: mult_nonneg_nonneg mult_right_mono)
  then have "0 \<le> fl (r * fl (3/10))"
    and "fl (r * fl (3/10)) \<le> fl ((1 - 1 / 2 ^ 53) * fl (3/10))"
    by (simp_all only: fl_nonneg fl_mono)
  then have "0 \<le> fl (r * fl (3/10))"
    and "fl (r * fl (3/10)) \<le> 2702159776422297 / 2 ^ 53"
    by (simp_all only: top_products)
  then have "1/2 \<le> 1/2 + fl (r * fl (3/10))"
    and "1/2 + fl (r * fl (3/10)) \<le> 1/2 + 2702159776422297 / 2 ^ 53"
    by linarith+
  then have "fl (1/2) \<le> fl (1/2 + fl (r * fl (3/10)))"
    and "fl (1/2 + fl (r * fl (3/10))) \<le> fl (1/2 + 2702159776422297 / 2 ^ 53)"
    by (simp_all only: fl_mono)
  then have "fl (1/2) \<le> fl (1/2 + fl (r * fl (3/10)))"
    and "fl (1/2 + fl (r * fl (3/10))) \<le> 7205759403792793 / 2 ^ 53"
    by (simp_all only: top_sums)
  moreover have "fl (1/2) = 1/2" and "7205759403792793 / 2 ^ 53 < fl (8/10)"
    using fl_dyadic [of 1 1] by (simp_all add: literal_values)
  ultimately show "1/2 \<le> fl (1/2 + fl (r * fl (3/10)))"
    and "fl (1/2 + fl (r * fl (3/10))) < fl (8/10)"
    by linarith+
qed

lemma spawnVehicle_speed:
  assumes "unit_draw (speedDraw d)"
  shows "fl (3/10) \<le> speed (fst (spawnVehicle d c))"
proof -
  have "fl (3/10) \<le> 1/2"
    by (simp add: literal_values)
  with truck_speed(1) [OF assms] car_speed(1) [OF assms] show ?thesis
    by (simp add: spawnVehicle_fields)
qed

lemma spawnVehicle_double:
  "is_double (speed (fst (spawnVehicle d c)))" "is_double (position (fst (spawnVehicle d c)))"
  by (simp_all add: spawnVehicle_fields is_double_def)

text \<open>Motion.\<close>

lemma slowdown_le:
  assumes "is_double s" and "0 \<le> s"
  shows "0 \<le> fl (s * fl (3/10))" and "fl (s * fl (3/10)) \<le> s"
proof -
  have "0 \<le> fl (3/10)" and "fl (3/10) \<le> 1"
    by (simp_all add: literal_values)
  with assms(2) have "0 \<le> s * fl (3/10)" and "s * fl (3/10) \<le> s"
    by (simp_all add: mult_left_le)
  then have "0 \<le> fl (s * fl (3/10))" and "fl (s * fl (3/10)) \<le> fl s"
    by (simp_all only: fl_nonneg fl_mono)
  with assms(1) show "0 \<le> fl (s * fl (3/10))" and "fl (s * fl (3/10)) \<le> s"
    by (simp_all add: is_double_def)
qed

lemma position_le:
  assumes "is_double p" and "0 \<le> s"
  shows "p \<le> fl (p + s)"
proof -
  from assms(2) have "p \<le> p + s"
    by simp
  then have "fl p \<le> fl (p + s)"
    by (rule fl_mono)
  with assms(1) show ?thesis
    by (simp add: is_double_def)
qed

lemma advanceVehicle_speed:
  "speed (advanceVehicle r v) =
     (if r > fl (995/1000) then fl (speed v * fl (3/10)) else speed v)"
  by (simp add: advanceVehicle_def)

lemma advanceVehicle_numbers:
  assumes "is_double (position v) \<and> is_double (speed v) \<and> 0 \<le> speed v"
  shows "is_double (position (advanceVehicle r v)) \<and> is_double (speed (advanceVehicle r v)) \<and>
         0 \<le> speed (advanceVehicle r v) \<and> speed (advanceVehicle r v) \<le> speed v \<and>
         position v \<le> position (advanceVehicle r v)"
  using assms slowdown_le [of "speed v"] position_le [of "position v" "speed v"]
  by (simp add: advanceVehicle_speed)

lemma mapVehicles_related:
  assumes "\<forall>v\<in>set prev. is_double (position v) \<and> is_double (speed v) \<and> 0 \<le> speed v"
  shows "list_all2
           (\<lambda>v v'. vid v' = vid v \<and> position v' = fl (position v + speed v) \<and> 0 \<le> speed v \<and>
              position v \<le> position v' \<and> speed v' \<le> speed v \<and> 0 \<le> speed v' \<and>
              (speed v' = speed v \<or> speed v' = fl (speed v * fl (3/10))))
           (filter (\<lambda>v. fl (position v + speed v) < 100) prev)
           (map markDetected (filter (\<lambda>v. position v < 100) (mapVehicles r i prev)))"
  using assms
proof (induction prev arbitrary: i)
  case Nil
  show ?case by simp
next
  case (Cons v prev)
  from Cons.prems have "is_double (position v) \<and> is_double (speed v) \<and> 0 \<le> speed v"
    by simp
  from advanceVehicle_numbers [OF this, of "r i"]
  have head: "0 \<le> speed v \<and> position v \<le> fl (position v + speed v) \<and>
      speed (advanceVehicle (r i) v) \<le> speed v \<and> 0 \<le> speed (advanceVehicle (r i) v) \<and>
      (speed (advanceVehicle (r i) v) = speed v \<or>
       speed (advanceVehicle (r i) v) = fl (speed v * fl (3/10)))"
    using Cons.prems by (simp add: advanceVehicle_speed)
  from Cons.prems have "\<forall>v\<in>set prev. is_double (position v) \<and> is_double (speed v) \<and> 0 \<le> speed v"
    by simp
  from Cons.IH [OF this, of "Suc i"] head show ?case
    by simp
qed

lemma mapVehicles_numbers:
  assumes "\<forall>v\<in>set prev. is_double (position v) \<and> is_double (speed v) \<and> 0 \<le> speed v"
  shows "\<forall>v\<in>set (mapVehicles r i prev).
           is_double (position v) \<and> is_double (speed v) \<and> 0 \<le> speed v"
  using assms
proof (induction prev arbitrary: i)
  case Nil
  show ?case by simp
next
  case (Cons v prev)
  from Cons.prems have "is_double (position v) \<and> is_double (speed v) \<and> 0 \<le> speed v"
    by simp
  from advanceVehicle_numbers [OF this, of "r i"]
  have head: "is_double (position (advanceVehicle (r i) v)) \<and>
      is_double (speed (advanceVehicle (r i) v)) \<and> 0 \<le> speed (advanceVehicle (r i) v)"
    by blast
  from Cons.prems have "\<forall>v\<in>set prev. is_double (position v) \<and> is_double (speed v) \<and> 0 \<le> speed v"
    by simp
  from Cons.IH [OF this, of "Suc i"] head show ?case
    by simp
qed

lemma spawnStep_numbers:
  assumes "\<forall>v\<in>set (vehicles s). is_double (position v) \<and> is_double (speed v) \<and> 0 \<le> speed v"
    and "valid_draws d"
  shows "\<forall>v\<in>set (vehicles (spawnStep d t s)).
           is_double (position v) \<and> is_double (speed v) \<and> 0 \<le> speed v"
proof -
  from assms(2) have "fl (3/10) \<le> speed (fst (spawnVehicle d (vehicleIdCounter s)))"
    by (intro spawnVehicle_speed) (simp add: valid_draws_def)
  moreover have "0 \<le> fl (3/10)"
    by (simp add: literal_values)
  ultimately have "0 \<le> speed (fst (spawnVehicle d (vehicleIdCounter s)))"
    by linarith
  with spawnVehicle_double [of d "vehicleIdCounter s"]
  have new: "\<forall>v\<in>set (vehicles s @ [fst (spawnVehicle d (vehicleIdCounter s))]).
      is_double (position v) \<and> is_double (speed v) \<and> 0 \<le> speed v"
    using assms(1) by simp
  from spawnStep_cases [of d t s] show ?thesis
  proof
    assume "vehicles (spawnStep d t s) = vehicles s \<and>
      vehicleIdCounter (spawnStep d t s) = vehicleIdCounter s"
    with assms(1) show ?thesis
      by simp
  next
    assume "vehicles (spawnStep d t s) =
        vehicles s @ [fst (spawnVehicle d (vehicleIdCounter s))] \<and>
      vehicleIdCounter (spawnStep d t s) = Suc (vehicleIdCounter s)"
    with new show ?thesis
      by simp
  qed
qed

lemma step_numbers:
  assumes "\<forall>v\<in>set (vehicles s). is_double (position v) \<and> is_double (speed v) \<and> 0 \<le> speed v"
    and "valid_action a"
  shows "\<forall>v\<in>set (vehicles (step now s a)).
           is_double (position v) \<and> is_double (speed v) \<and> 0 \<le> speed v"
proof (cases a)
  case (Animate d t)
  show ?thesis
  proof (cases "isRunning s")
    case True
    from assms Animate
    have "\<forall>v\<in>set (vehicles (spawnStep d t s)).
        is_double (position v) \<and> is_double (speed v) \<and> 0 \<le> speed v"
      by (intro spawnStep_numbers) simp_all
    then have "\<forall>v\<in>set (mapVehicles (slowdownDraw d) 0 (vehicles (spawnStep d t s))).
        is_double (position v) \<and> is_double (speed v) \<and> 0 \<le> speed v"
      by (rule mapVehicles_numbers)
    with True Animate show ?thesis
      by (simp add: animate_vehicles moveVehicles_def)
  next
    case False
    with Animate assms(1) show ?thesis
      by (simp add: animate_stopped)
  qed
qed (use assms in \<open>simp_all add: resetSimulation_def\<close>)

lemma run_numbers:
  assumes "list_all valid_action as"
  shows "\<forall>v\<in>set (vehicles (run now as)).
           is_double (position v) \<and> is_double (speed v) \<and> 0 \<le> speed v"
  using assms by (rule run_valid_invariant) (simp add: initial_def, rule step_numbers)

text \<open>A slowdown at least halves the speed; the product is rounded to a double.\<close>

lemma slowdown_halves:
  assumes "is_double s" and "0 \<le> s"
  shows "fl (s * fl (3/10)) \<le> s / 2"
proof (cases "s = 0")
  case True
  then show ?thesis by simp
next
  case False
  with assms(2) have s: "0 < s"
    by simp
  define x where "x = s * fl (3/10)"
  define g :: real where "g = 2 powi (- 1074)"
  have g: "0 < g"
    unfolding g_def by (rule zero_less_power_int) simp
  have c: "0 < fl (3/10)" "fl (3/10) \<le> 3/10"
    by (simp_all add: literal_values)
  from s c have x: "0 < x" "x \<le> s * (3/10)"
    unfolding x_def by simp_all
  have "fl x \<le> s / 2"
  proof (cases "- 1022 < expo x")
    case True
    have "(2::real) powi (- 52) \<le> 1"
      by (simp add: power_int_minus_divide)
    with x(1) have "x * 2 powi (- 52) \<le> x * 1"
      by (intro mult_left_mono) simp_all
    with ulp_relative [OF x(1) True] have "ulp x \<le> x"
      by simp
    moreover from fl_error [OF x(1)] have "fl x \<le> x + ulp x / 2"
      by linarith
    ultimately have "fl x \<le> x * (3/2)"
      by simp
    with x(2) s show ?thesis
      by linarith
  next
    case False
    with expo_ge [of x] have "expo x = - 1022"
      by linarith
    then have u: "ulp x = g"
      unfolding g_def by (rule ulp_subnormal)
    from fl_grid [OF assms(2)] assms(1) obtain n :: int where n: "0 \<le> n" "s = of_int n * g"
      unfolding is_double_def g_def by auto
    with s have n1: "1 \<le> n"
      by (cases "n = 0") simp_all
    define M where "M = rne (x / g)"
    have fx: "fl x = g * of_int M"
      using fl_pos [OF x(1)] u by (simp add: M_def)
    from g n(2) have "x / g = of_int n * fl (3/10)"
      by (simp add: x_def)
    moreover from n(1) c(2) have "of_int n * fl (3/10) \<le> (of_int n :: real) * (3/10)"
      by (intro mult_left_mono) simp_all
    moreover from rne_error [of "x / g"] have "of_int M \<le> x / g + 1/2"
      unfolding M_def by linarith
    ultimately have "of_int M \<le> (of_int n :: real) * (3/10) + 1/2"
      by linarith
    then have "(of_int (10 * M) :: real) \<le> of_int (3 * n + 5)"
      by simp
    then have "10 * M \<le> 3 * n + 5"
      by (simp only: of_int_le_iff)
    with n1 have "2 * M \<le> n"
      by presburger
    then have "(of_int (2 * M) :: real) \<le> of_int n"
      by (simp only: of_int_le_iff)
    then have "(of_int M :: real) \<le> of_int n / 2"
      by simp
    with g have "g * of_int M \<le> g * (of_int n / 2)"
      by (intro mult_left_mono) simp_all
    with fx n(2) show ?thesis
      by (simp add: mult.commute)
  qed
  then show ?thesis
    by (simp only: x_def)
qed

text \<open>Below the grid of the doubles there is only 0.\<close>

lemma double_underflow:
  assumes "is_double s" and "0 \<le> s" and "s \<le> 1 / 2 ^ k" and "1074 < k"
  shows "s = 0"
proof -
  define g :: real where "g = 2 powi (- 1074)"
  have "(1::real) / 2 ^ k = 2 powi (- int k)"
    by (simp add: power_int_minus_divide)
  moreover from assms(4) have "(2::real) powi (- int k) < 2 powi (- 1074)"
    by (simp only: pow2_less_iff)
  ultimately have small: "1 / 2 ^ k < g"
    by (simp only: g_def)
  have g: "0 < g"
    unfolding g_def by (rule zero_less_power_int) simp
  from fl_grid [OF assms(2)] assms(1) obtain n :: int where n: "0 \<le> n" "s = of_int n * g"
    unfolding is_double_def g_def by auto
  have "n = 0"
  proof (rule ccontr)
    assume "n \<noteq> 0"
    with n(1) have "1 \<le> n"
      by simp
    then have "(1::real) \<le> of_int n"
      by simp
    with g have "1 * g \<le> of_int n * g"
      by (intro mult_right_mono) simp_all
    with n(2) have "g \<le> s"
      by simp
    with assms(3) small show False
      by linarith
  qed
  with n(2) show ?thesis
    by simp
qed

text \<open>The position of a vehicle whose speed halves in every tick stays below 1.\<close>

lemma position_bound:
  assumes "p \<le> (if k \<le> 52 then 1 - 1 / 2 ^ k else 1)" and "s \<le> 1 / 2 ^ Suc k"
  shows "fl (p + s) \<le> (if Suc k \<le> 52 then 1 - 1 / 2 ^ Suc k else 1)"
proof -
  consider "Suc k \<le> 52" | "k = 52" | "53 \<le> k"
    by linarith
  then show ?thesis
  proof cases
    case 1
    with assms have "p + s \<le> 1 - 1 / 2 ^ Suc k"
      by simp
    then have "fl (p + s) \<le> fl (1 - 1 / 2 ^ Suc k)"
      by (rule fl_mono)
    moreover have "fl (1 - 1 / 2 ^ Suc k) = 1 - 1 / 2 ^ Suc k"
    proof -
      from 1 have "(2::int) ^ Suc k \<le> 2 ^ 52"
        by (intro power_increasing) simp_all
      then have "\<bar>(2::int) ^ Suc k - 1\<bar> < 2 ^ 53"
        by simp
      from fl_dyadic [OF this, of "Suc k"] 1
      have "fl (of_int (2 ^ Suc k - 1) / 2 ^ Suc k) = of_int (2 ^ Suc k - 1) / 2 ^ Suc k"
        by simp
      moreover have "(of_int (2 ^ Suc k - 1) :: real) / 2 ^ Suc k = 1 - 1 / 2 ^ Suc k"
        by (simp add: field_simps)
      ultimately show ?thesis
        by (simp only:)
    qed
    ultimately show ?thesis
      using 1 by simp
  next
    case 2
    with assms have "p + s \<le> 1"
      by simp
    then have "fl (p + s) \<le> fl 1"
      by (rule fl_mono)
    with 2 show ?thesis
      by simp
  next
    case 3
    then have "(2::real) ^ 54 \<le> 2 ^ Suc k"
      by (intro power_increasing) simp_all
    then have "1 / (2::real) ^ Suc k \<le> 1 / 2 ^ 54"
      by (intro divide_left_mono) simp_all
    moreover from assms(1) 3 have "p \<le> 1"
      by simp
    ultimately have "p + s \<le> 1 + 1 / 2 ^ 54"
      using assms(2) by linarith
    then have "fl (p + s) \<le> fl (1 + 1 / 2 ^ 54)"
      by (rule fl_mono)
    moreover have "fl (1 + 1 / 2 ^ 54) = 1"
      using fl_eval [of 0 "1 + 1 / 2 ^ 54"] by (simp add: rne_def)
    ultimately show ?thesis
      using 3 by simp
  qed
qed

text \<open>Ticks whose draws slow every vehicle down.\<close>

lemma animate_lastSpawnTime:
  "isRunning s \<Longrightarrow> lastSpawnTime (animate now d t s) = lastSpawnTime (spawnStep d t s)"
  by (simp add: animate_def sensorStep_def vehicleStep_sensors)

lemma slowSpawn_tick:
  assumes "isRunning s" and "vehicles (spawnStep slowSpawnDraws t s) = [v]"
    and "is_double (speed v)" and "0 \<le> speed v" and "speed v \<le> 1 / 2 ^ Suc k"
    and "position v \<le> (if k \<le> 52 then 1 - 1 / 2 ^ k else 1)"
  shows "\<exists>v'. vehicles (animate now slowSpawnDraws t s) = [v'] \<and>
           is_double (speed v') \<and> 0 \<le> speed v' \<and> speed v' \<le> 1 / 2 ^ Suc (Suc k) \<and>
           position v' \<le> (if Suc k \<le> 52 then 1 - 1 / 2 ^ Suc k else 1)"
proof -
  let ?r = "slowdownDraw slowSpawnDraws"
  have draw: "?r 0 > fl (995/1000)"
    by (simp add: slowSpawnDraws_def literal_values)
  note bound = position_bound [OF assms(6) assms(5)]
  have "(if Suc k \<le> 52 then 1 - 1 / 2 ^ Suc k else (1::real)) \<le> 1"
    by simp
  with bound have "fl (position v + speed v) < 100"
    by linarith
  with assms(1,2) have kept: "vehicles (animate now slowSpawnDraws t s) =
      [markDetected (advanceVehicle (?r 0) v)]"
    by (simp add: animate_vehicles moveVehicles_def)
  from draw have slowed: "speed (advanceVehicle (?r 0) v) = fl (speed v * fl (3/10))"
    by (simp only: advanceVehicle_speed if_True)
  from slowdown_halves [OF assms(3,4)] assms(5)
  have "fl (speed v * fl (3/10)) \<le> 1 / 2 ^ Suc (Suc k)"
    by simp
  moreover from slowdown_le(1) [OF assms(3,4)] have "0 \<le> fl (speed v * fl (3/10))" .
  ultimately have "is_double (speed (markDetected (advanceVehicle (?r 0) v))) \<and>
      0 \<le> speed (markDetected (advanceVehicle (?r 0) v)) \<and>
      speed (markDetected (advanceVehicle (?r 0) v)) \<le> 1 / 2 ^ Suc (Suc k) \<and>
      position (markDetected (advanceVehicle (?r 0) v)) \<le>
        (if Suc k \<le> 52 then 1 - 1 / 2 ^ Suc k else 1)"
    using bound by (simp only: markDetected_fields advanceVehicle_fields slowed is_double_fl)
  with kept show ?thesis
    by blast
qed

lemma spawnStep_same_time:
  assumes "lastSpawnTime s = t" and "unit_draw (spawnGate d)"
  shows "spawnStep d t s = s"
proof -
  from assms(2) have "0 \<le> spawnGate d * 2000"
    by (simp add: unit_draw_def)
  then have "0 \<le> fl (spawnGate d * 2000)"
    by (rule fl_nonneg)
  then have "0 \<le> 2000 + fl (spawnGate d * 2000)"
    by simp
  then have "0 \<le> fl (2000 + fl (spawnGate d * 2000))"
    by (rule fl_nonneg)
  with assms(1) show ?thesis
    by (simp add: spawnStep_def)
qed

lemma underflow_run:
  "\<exists>v. vehicles (run now (ToggleRunning # replicate (Suc k) (Animate slowSpawnDraws 5000))) = [v] \<and>
     is_double (speed v) \<and> 0 \<le> speed v \<and> speed v \<le> 1 / 2 ^ Suc (Suc k) \<and>
     position v \<le> (if Suc k \<le> 52 then 1 - 1 / 2 ^ Suc k else 1) \<and>
     isRunning (run now (ToggleRunning # replicate (Suc k) (Animate slowSpawnDraws 5000))) \<and>
     lastSpawnTime (run now (ToggleRunning # replicate (Suc k) (Animate slowSpawnDraws 5000))) = 5000"
proof (induction k)
  case 0
  let ?s = "initial\<lparr>isRunning := True\<rparr>"
  let ?v = "fst (spawnVehicle slowSpawnDraws 0)"
  have start: "run now [ToggleRunning, Animate slowSpawnDraws 5000] =
      animate now slowSpawnDraws 5000 ?s"
    by (simp add: run_def runFrom_def initial_def)
  have running: "isRunning ?s"
    by simp
  have spawned: "spawnStep slowSpawnDraws 5000 ?s =
      ?s\<lparr>vehicles := [?v], vehicleIdCounter := 1, lastSpawnTime := 5000\<rparr>"
    by (simp add: spawnStep_def spawnVehicle_def Let_def initial_def slowSpawnDraws_def
        truckSpawnDraws_def)
  then have one: "vehicles (spawnStep slowSpawnDraws 5000 ?s) = [?v]"
    by simp
  have speed: "speed ?v = fl (3/10)"
    by (simp add: simulation_defs input_defs)
  have numbers: "is_double (speed ?v)" "0 \<le> speed ?v" "speed ?v \<le> 1 / 2 ^ Suc 0"
    unfolding speed by (simp_all add: literal_values is_double_def literal_fixed)
  have place: "position ?v \<le> (if (0::nat) \<le> 52 then 1 - 1 / 2 ^ (0::nat) else 1)"
    by (simp add: spawnVehicle_fields)
  from slowSpawn_tick [OF running one numbers place, of now]
  obtain v' where "vehicles (animate now slowSpawnDraws 5000 ?s) = [v'] \<and>
      is_double (speed v') \<and> 0 \<le> speed v' \<and> speed v' \<le> 1 / 2 ^ Suc (Suc 0) \<and>
      position v' \<le> (if Suc 0 \<le> 52 then 1 - 1 / 2 ^ Suc 0 else 1)"
    by blast
  moreover have "isRunning (animate now slowSpawnDraws 5000 ?s)"
    by (simp add: animate_frame)
  moreover have "lastSpawnTime (animate now slowSpawnDraws 5000 ?s) = 5000"
    by (simp only: animate_lastSpawnTime [OF running] spawned) simp
  ultimately show ?case
    by (simp only: replicate.simps start) blast
next
  case (Suc k)
  let ?a = "Animate slowSpawnDraws 5000"
  let ?s = "run now (ToggleRunning # replicate (Suc k) ?a)"
  from Suc.IH obtain v where v: "vehicles ?s = [v]" "is_double (speed v)" "0 \<le> speed v"
      "speed v \<le> 1 / 2 ^ Suc (Suc k)"
      "position v \<le> (if Suc k \<le> 52 then 1 - 1 / 2 ^ Suc k else 1)"
    and running: "isRunning ?s" and time: "lastSpawnTime ?s = 5000"
    by blast
  have "ToggleRunning # replicate (Suc (Suc k)) ?a = (ToggleRunning # replicate (Suc k) ?a) @ [?a]"
    by (simp only: replicate_append_same append_Cons replicate.simps)
  then have next_state: "run now (ToggleRunning # replicate (Suc (Suc k)) ?a) =
      animate now slowSpawnDraws 5000 ?s"
    by (simp only: run_snoc step.simps)
  have "unit_draw (spawnGate slowSpawnDraws)"
    by (simp add: input_defs)
  with time have same: "spawnStep slowSpawnDraws 5000 ?s = ?s"
    by (rule spawnStep_same_time)
  with v(1) have one: "vehicles (spawnStep slowSpawnDraws 5000 ?s) = [v]"
    by (simp only:)
  from slowSpawn_tick [OF running one v(2-5), of now]
  obtain v' where "vehicles (animate now slowSpawnDraws 5000 ?s) = [v'] \<and>
      is_double (speed v') \<and> 0 \<le> speed v' \<and> speed v' \<le> 1 / 2 ^ Suc (Suc (Suc k)) \<and>
      position v' \<le> (if Suc (Suc k) \<le> 52 then 1 - 1 / 2 ^ Suc (Suc k) else 1)"
    by blast
  moreover from running have "isRunning (animate now slowSpawnDraws 5000 ?s)"
    by (simp add: animate_frame)
  moreover from time have "lastSpawnTime (animate now slowSpawnDraws 5000 ?s) = 5000"
    by (simp only: animate_lastSpawnTime [OF running] same)
  ultimately show ?case
    by (simp only: next_state) blast
qed

text \<open>The slowdown history.\<close>

lemma mapVehicles_unslowed:
  "v' \<in> set (mapVehicles r i vs) \<Longrightarrow> vid v' \<notin> slowedIn r i vs \<Longrightarrow>
   \<exists>v\<in>set vs. vid v = vid v' \<and> speed v' = speed v"
proof (induction vs arbitrary: i)
  case Nil
  then show ?case by simp
next
  case (Cons w vs)
  show ?case
  proof (cases "v' = advanceVehicle (r i) w")
    case True
    with Cons.prems(2) have "\<not> r i > fl (995/1000)"
      by (auto split: if_splits)
    with True have "vid w = vid v' \<and> speed v' = speed w"
      by (simp add: advanceVehicle_speed)
    then show ?thesis
      by auto
  next
    case False
    with Cons.prems have "v' \<in> set (mapVehicles r (Suc i) vs)" and "vid v' \<notin> slowedIn r (Suc i) vs"
      by simp_all
    from Cons.IH [OF this] show ?thesis
      by auto
  qed
qed

lemma runH_Nil: "runH now [] = (initial, {})"
  by (simp add: runH_def)

lemma runH_snoc: "runH now (as @ [a]) = stepH now (runH now as) a"
  by (simp add: runH_def)

lemma stepH_fst: "fst (stepH now sH a) = step now (fst sH) a"
  by (cases sH; cases a) simp_all

lemma runH_fst: "fst (runH now as) = run now as"
  by (induction as rule: rev_induct) (simp_all add: runH_Nil runH_snoc run_snoc stepH_fst)

lemma slowedIds_Nil: "slowedIds now [] = {}"
  by (simp add: slowedIds_def runH_Nil)

lemma slowedIds_snoc:
  "slowedIds now (as @ [a]) = snd (stepH now (run now as, slowedIds now as) a)"
  unfolding slowedIds_def by (simp add: runH_snoc runH_fst [symmetric])

lemma slowedIds_Animate:
  "slowedIds now (as @ [Animate d t]) =
     (if isRunning (run now as)
      then slowedIds now as \<union> slowedIn (slowdownDraw d) 0 (vehicles (spawnStep d t (run now as)))
      else slowedIds now as)"
  by (simp add: slowedIds_snoc)

lemma slowedIds_others:
  "slowedIds now (as @ [Reset]) = {}"
  "slowedIds now (as @ [ToggleRunning]) = slowedIds now as"
  "slowedIds now (as @ [Acknowledge]) = slowedIds now as"
  "slowedIds now (as @ [SelectZone z]) = slowedIds now as"
  by (simp_all add: slowedIds_snoc)

lemma spawnStep_unslowed:
  assumes "\<forall>v\<in>set (vehicles s). vid v \<notin> H \<longrightarrow> fl (3/10) \<le> speed v"
    and "valid_draws d"
  shows "\<forall>v\<in>set (vehicles (spawnStep d t s)). vid v \<notin> H \<longrightarrow> fl (3/10) \<le> speed v"
proof -
  from assms(2) have new: "fl (3/10) \<le> speed (fst (spawnVehicle d (vehicleIdCounter s)))"
    by (intro spawnVehicle_speed) (simp add: valid_draws_def)
  from spawnStep_cases [of d t s] show ?thesis
  proof
    assume "vehicles (spawnStep d t s) = vehicles s \<and>
      vehicleIdCounter (spawnStep d t s) = vehicleIdCounter s"
    with assms(1) show ?thesis
      by simp
  next
    assume "vehicles (spawnStep d t s) =
        vehicles s @ [fst (spawnVehicle d (vehicleIdCounter s))] \<and>
      vehicleIdCounter (spawnStep d t s) = Suc (vehicleIdCounter s)"
    with assms(1) new show ?thesis
      by simp
  qed
qed

lemma moved_unslowed:
  assumes "\<forall>v\<in>set vs. vid v \<notin> H \<longrightarrow> fl (3/10) \<le> speed v"
    and "v' \<in> set (mapVehicles r 0 vs)" and "vid v' \<notin> H \<union> slowedIn r 0 vs"
  shows "fl (3/10) \<le> speed v'"
proof -
  from assms(3) have "vid v' \<notin> slowedIn r 0 vs" and out: "vid v' \<notin> H"
    by simp_all
  with assms(2) obtain v where "v \<in> set vs" and "vid v = vid v'" and "speed v' = speed v"
    using mapVehicles_unslowed by blast
  with assms(1) out show ?thesis
    by simp
qed

lemma animate_unslowed:
  assumes "\<forall>v\<in>set (vehicles s). vid v \<notin> H \<longrightarrow> fl (3/10) \<le> speed v"
    and "valid_draws d" and "isRunning s"
  shows "\<forall>v\<in>set (vehicles (animate now d t s)).
           vid v \<notin> H \<union> slowedIn (slowdownDraw d) 0 (vehicles (spawnStep d t s)) \<longrightarrow>
           fl (3/10) \<le> speed v"
proof (intro ballI impI)
  fix v'
  assume "v' \<in> set (vehicles (animate now d t s))"
    and out: "vid v' \<notin> H \<union> slowedIn (slowdownDraw d) 0 (vehicles (spawnStep d t s))"
  with assms(3) obtain w where w: "w \<in> set (mapVehicles (slowdownDraw d) 0 (vehicles (spawnStep d t s)))"
    and v': "v' = markDetected w"
    by (auto simp: animate_vehicles moveVehicles_def)
  from out v' have "vid w \<notin> H \<union> slowedIn (slowdownDraw d) 0 (vehicles (spawnStep d t s))"
    by simp
  with spawnStep_unslowed [OF assms(1,2)] w have "fl (3/10) \<le> speed w"
    by (rule moved_unslowed)
  with v' show "fl (3/10) \<le> speed v'"
    by simp
qed

lemma run_unslowed:
  assumes "list_all valid_action as"
  shows "\<forall>v\<in>set (vehicles (run now as)). vid v \<notin> slowedIds now as \<longrightarrow> fl (3/10) \<le> speed v"
  using assms
proof (induction as rule: rev_induct)
  case Nil
  show ?case
    by (simp add: initial_def)
next
  case (snoc a as)
  then have hyp: "\<forall>v\<in>set (vehicles (run now as)).
      vid v \<notin> slowedIds now as \<longrightarrow> fl (3/10) \<le> speed v"
    and valid: "valid_action a"
    by simp_all
  show ?case
  proof (cases a)
    case (Animate d t)
    show ?thesis
    proof (cases "isRunning (run now as)")
      case True
      from valid Animate have "valid_draws d"
        by simp
      from animate_unslowed [OF hyp this True, of now t] True Animate show ?thesis
        by (simp only: run_snoc step.simps slowedIds_Animate if_True)
    next
      case False
      with hyp Animate show ?thesis
        by (simp add: run_snoc slowedIds_Animate animate_stopped)
    qed
  next
    case Reset
    then show ?thesis
      by (simp add: run_snoc resetSimulation_def)
  qed (use hyp in \<open>simp_all add: run_snoc slowedIds_others\<close>)
qed

lemma stall_alert_slowed:
  assumes "\<forall>v\<in>set vs. vid v \<notin> H \<longrightarrow> fl (3/10) \<le> speed v"
    and "(n, a) \<in> set (passAlerts now k (moveVehicles r vs))" and "itype a = Warning"
  shows "n \<in> H \<union> slowedIn r 0 vs"
proof (rule ccontr)
  assume out: "n \<notin> H \<union> slowedIn r 0 vs"
  from passAlerts_source [OF assms(2)] obtain v' k' where v': "v' \<in> set (moveVehicles r vs)"
    and n: "vid v' = n"
    and rule: "speed v' < fl (2/10) \<and> a = stallInsight now k' v' \<or>
      \<not> speed v' < fl (2/10) \<and> temperature v' > 30 \<and> a = heatInsight now k' v'"
    by blast
  from rule assms(3) have slow: "speed v' < fl (2/10)"
    by (auto simp: heatInsight_def)
  from v' have "v' \<in> set (mapVehicles r 0 vs)"
    by (simp add: moveVehicles_def)
  moreover from out n have "vid v' \<notin> H \<union> slowedIn r 0 vs"
    by simp
  ultimately have "fl (3/10) \<le> speed v'"
    by (rule moved_unslowed [OF assms(1)])
  moreover have "fl (2/10) < fl (3/10)"
    by (simp add: literal_values)
  ultimately show False
    using slow by linarith
qed

lemma truck_slowed:
  "fl (29206669829258403248756220714025 / 324518553658426726783156020576256) =
     3242591731706757 / 2 ^ 55"
  using fl_eval [of "- 4" "29206669829258403248756220714025 / 324518553658426726783156020576256"]
  by (simp add: rne_def)

lemma truck_doubled: "fl (5404319552844595 / 9007199254740992) = 5404319552844595 / 2 ^ 53"
  using fl_dyadic [of 5404319552844595 53] by simp

section \<open>One alert per vehicle\<close>

text \<open>
  C1: a vehicle not yet detected gets at most one alert in a pass. In the loop body, if
  its speed is below 0.2 the stall rule sets its flag and pushes the warning and the heat
  rule does nothing, whatever its temperature; otherwise, if its temperature is above 30,
  the heat rule pushes the critical alert; a vehicle with its flag set is left alone. A
  pass over a list pushes onto the log exactly the alerts of \<open>passAlerts\<close>, in that
  order, and sets the flags of exactly the vehicles that got one: every alert is raised
  for a vehicle of the list without the flag, the stall warning when its speed is below
  0.2, the critical alert only otherwise, and a stalled vehicle without the flag gets
  its warning. A tick of the running simulation pushes exactly the alerts of its pass;
  in every state a run reaches these carry pairwise distinct vehicle ids, the vehicle
  of each alert is settled after the tick, and a settled vehicle gets no alert in any
  later tick and stays settled as long as the simulation is not reset.
\<close>

theorem one_alert_per_vehicle:
  "(\<not> detected v \<and> speed v < fl (2/10) \<longrightarrow>
      detectVehicle now v s =
        (v\<lparr>detected := True\<rparr>,
         s\<lparr>incidentDetected := True,
           aiInsights := pushInsight (stallInsight now (clockReads s) v) (aiInsights s),
           clockReads := clockReads s + 2\<rparr>)) \<and>
   itype (stallInsight now k v) = Warning \<and>
   (\<not> detected v \<and> \<not> speed v < fl (2/10) \<and> temperature v > 30 \<longrightarrow>
      detectVehicle now v s =
        (v\<lparr>detected := True\<rparr>,
         s\<lparr>aiInsights := pushInsight (heatInsight now (clockReads s) v) (aiInsights s),
           clockReads := clockReads s + 2\<rparr>)) \<and>
   itype (heatInsight now k v) = Critical \<and>
   (\<not> detected v \<and> \<not> speed v < fl (2/10) \<and> \<not> temperature v > 30 \<longrightarrow>
      detectVehicle now v s = (v, s)) \<and>
   (detected v \<longrightarrow> detectVehicle now v s = (v, s) \<and> detected (advanceVehicle r v)) \<and>
   detectIncidents now vs s =
     (map markDetected vs,
      s\<lparr>incidentDetected :=
          incidentDetected s \<or> (\<exists>v\<in>set vs. \<not> detected v \<and> speed v < fl (2/10)),
        aiInsights :=
          foldl (\<lambda>l a. pushInsight a l) (aiInsights s)
            (map snd (passAlerts now (clockReads s) vs)),
        clockReads := clockReads s + 2 * length (passAlerts now (clockReads s) vs)\<rparr>) \<and>
   (\<forall>(n, a)\<in>set (passAlerts now k vs).
      \<exists>v\<in>set vs. \<exists>k'. vid v = n \<and> \<not> detected v \<and>
        (speed v < fl (2/10) \<and> a = stallInsight now k' v \<or>
         \<not> speed v < fl (2/10) \<and> temperature v > 30 \<and> a = heatInsight now k' v)) \<and>
   map fst (passAlerts now k vs) =
     map vid (filter (\<lambda>v. \<not> detected v \<and> (speed v < fl (2/10) \<or> temperature v > 30)) vs) \<and>
   (v \<in> set vs \<and> \<not> detected v \<and> speed v < fl (2/10) \<longrightarrow>
      (\<exists>k'. (vid v, stallInsight now k' v) \<in> set (passAlerts now k vs))) \<and>
   (isRunning s \<longrightarrow>
      aiInsights (animate now d t s) =
        foldl (\<lambda>l a. pushInsight a l) (aiInsights s) (map snd (tickAlerts now d t s)) \<and>
      vehicles (animate now d t s) =
        map markDetected (moveVehicles (slowdownDraw d) (vehicles (spawnStep d t s)))) \<and>
   distinct (map fst (tickAlerts now d t (run now as))) \<and>
   (isRunning (run now as) \<and> (n, a) \<in> set (tickAlerts now d t (run now as)) \<longrightarrow>
      settled n (animate now d t (run now as))) \<and>
   (settled n s \<longrightarrow> n \<notin> fst ` set (tickAlerts now d t s)) \<and>
   (settled n s \<and> Reset \<notin> set bs \<longrightarrow> settled n (runFrom now s bs))"
proof -
  have body: "detectVehicle now v s =
     (if detected v then (v, s)
      else if speed v < fl (2/10) then
        (v\<lparr>detected := True\<rparr>,
         s\<lparr>incidentDetected := True,
           aiInsights := pushInsight (stallInsight now (clockReads s) v) (aiInsights s),
           clockReads := clockReads s + 2\<rparr>)
      else if temperature v > 30 then
        (v\<lparr>detected := True\<rparr>,
         s\<lparr>aiInsights := pushInsight (heatInsight now (clockReads s) v) (aiInsights s),
           clockReads := clockReads s + 2\<rparr>)
      else (v, s))"
    by (rule detectVehicle_cases)
  have kinds: "itype (stallInsight now k v) = Warning \<and> itype (heatInsight now k v) = Critical"
    by (simp add: stallInsight_def heatInsight_def)
  have source: "\<forall>(n, a)\<in>set (passAlerts now k vs).
      \<exists>v\<in>set vs. \<exists>k'. vid v = n \<and> \<not> detected v \<and>
        (speed v < fl (2/10) \<and> a = stallInsight now k' v \<or>
         \<not> speed v < fl (2/10) \<and> temperature v > 30 \<and> a = heatInsight now k' v)"
    using passAlerts_source [of _ _ now k vs] by blast
  have stall: "\<exists>k'. (vid v, stallInsight now k' v) \<in> set (passAlerts now k vs)"
    if "v \<in> set vs \<and> \<not> detected v \<and> speed v < fl (2/10)"
    using that passAlerts_stall [of v vs now k] by blast
  have tick: "aiInsights (animate now d t s) =
        foldl (\<lambda>l a. pushInsight a l) (aiInsights s) (map snd (tickAlerts now d t s)) \<and>
      vehicles (animate now d t s) =
        map markDetected (moveVehicles (slowdownDraw d) (vehicles (spawnStep d t s)))"
    if "isRunning s"
    using that by (simp add: animate_aiInsights animate_vehicles)
  have dist: "distinct (map fst (tickAlerts now d t (run now as)))"
    using run_idsInOrder by (rule tickAlerts_distinct)
  have settles: "settled n (animate now d t (run now as))"
    if "isRunning (run now as) \<and> (n, a) \<in> set (tickAlerts now d t (run now as))"
    using that alert_settles [OF run_idsInOrder] by blast
  have quiet: "n \<notin> fst ` set (tickAlerts now d t s)" if "settled n s"
    using that by (rule settled_no_alert)
  have stays: "settled n (runFrom now s bs)" if "settled n s \<and> Reset \<notin> set bs"
    using that settled_runFrom by blast
  have moved: "detected (advanceVehicle r v)" if "detected v"
    using that by simp
  show ?thesis
    apply (intro conjI impI)
    subgoal using body by simp
    subgoal using kinds by simp
    subgoal using body by simp
    subgoal using kinds by simp
    subgoal using body by simp
    subgoal using body by simp
    subgoal using moved by simp
    subgoal by (rule detectIncidents_pass)
    subgoal by (rule source)
    subgoal by (rule passAlerts_tags)
    subgoal using stall by blast
    subgoal using tick by blast
    subgoal using tick by blast
    subgoal by (rule dist)
    subgoal using settles by blast
    subgoal using quiet by blast
    subgoal using stays by blast
    done
qed

theorem one_alert_per_vehicle_witness:
  "\<not> detected stalledHotVehicle \<and> speed stalledHotVehicle < fl (2/10) \<and>
   temperature stalledHotVehicle > 30 \<and>
   detectIncidents steadyClock [stalledHotVehicle] initial =
     ([stalledHotVehicle\<lparr>detected := True\<rparr>],
      initial\<lparr>incidentDetected := True,
        aiInsights := [stallInsight steadyClock 0 stalledHotVehicle],
        clockReads := 2\<rparr>) \<and>
   passAlerts steadyClock 0 [stalledHotVehicle] =
     [(3, stallInsight steadyClock 0 stalledHotVehicle)] \<and>
   settled 3 (initial\<lparr>vehicles := [stalledHotVehicle\<lparr>detected := True\<rparr>],
     vehicleIdCounter := 4\<rparr>) \<and>
   settled 3 (runFrom steadyClock
     (initial\<lparr>vehicles := [stalledHotVehicle\<lparr>detected := True\<rparr>], vehicleIdCounter := 4\<rparr>)
     [ToggleRunning, Acknowledge])"
proof -
  have input: "\<not> detected stalledHotVehicle" "speed stalledHotVehicle < fl (2/10)"
    "temperature stalledHotVehicle > 30" "vid stalledHotVehicle = 3"
    using literal_bounds by (simp_all add: stalledHotVehicle_def)
  have start: "aiInsights initial = []" "clockReads initial = 0" "incidentDetected initial = False"
    by (simp_all add: initial_def)
  have alerts: "passAlerts steadyClock 0 [stalledHotVehicle] =
      [(3, stallInsight steadyClock 0 stalledHotVehicle)]"
    using input by simp
  have set: "settled 3 (initial\<lparr>vehicles := [stalledHotVehicle\<lparr>detected := True\<rparr>],
      vehicleIdCounter := 4\<rparr>)"
    by (simp add: settled_def)
  have free: "Reset \<notin> set [ToggleRunning, Acknowledge]"
    by simp
  from one_alert_per_vehicle
    [where s = "initial\<lparr>vehicles := [stalledHotVehicle\<lparr>detected := True\<rparr>],
      vehicleIdCounter := 4\<rparr>" and now = steadyClock and n = 3
      and bs = "[ToggleRunning, Acknowledge]"] set free
  have later: "settled 3 (runFrom steadyClock
     (initial\<lparr>vehicles := [stalledHotVehicle\<lparr>detected := True\<rparr>], vehicleIdCounter := 4\<rparr>)
     [ToggleRunning, Acknowledge])"
    by blast
  have pass: "detectIncidents steadyClock [stalledHotVehicle] initial =
     ([stalledHotVehicle\<lparr>detected := True\<rparr>],
      initial\<lparr>incidentDetected := True,
        aiInsights := [stallInsight steadyClock 0 stalledHotVehicle],
        clockReads := 2\<rparr>)"
    using input start alerts by (simp add: detectIncidents_pass markDetected_def pushInsight_def)
  from input pass alerts set later show ?thesis
    by blast
qed

section \<open>The insight log\<close>

text \<open>
  C3: the log never holds more than five entries and is most-recent-first. Every push
  leaves at most five entries; pushing a sequence onto a log of at most five entries
  gives the first five of the sequence reversed followed by the old log; six pushes
  A, B, C, D, E, F onto any log leave exactly [F, E, D, C, B]. A detection pass turns a
  log of at most five entries into the first five of the alerts it creates, newest
  first, followed by the old log, and so does a tick of the running simulation in every
  state a run reaches; every other action but reset, which empties the log, leaves it
  as it is. The log has at most five entries after every sequence of actions.
\<close>

theorem insight_log_bounded_newest_first:
  "length (pushInsight i prev) \<le> 5 \<and>
   (length prev \<le> 5 \<longrightarrow>
      foldl (\<lambda>l a. pushInsight a l) prev xs = take 5 (rev xs @ prev)) \<and>
   foldl (\<lambda>l a. pushInsight a l) prev [A, B, C, D, E, F] = [F, E, D, C, B] \<and>
   (length (aiInsights s) \<le> 5 \<longrightarrow>
      aiInsights (snd (detectIncidents now vs s)) =
        take 5 (rev (map snd (passAlerts now (clockReads s) vs)) @ aiInsights s)) \<and>
   (isRunning (run now as) \<longrightarrow>
      aiInsights (animate now d t (run now as)) =
        take 5 (rev (map snd (tickAlerts now d t (run now as))) @ aiInsights (run now as))) \<and>
   (\<not> isRunning s \<longrightarrow> aiInsights (animate now d t s) = aiInsights s) \<and>
   aiInsights (step now s ToggleRunning) = aiInsights s \<and>
   aiInsights (step now s Acknowledge) = aiInsights s \<and>
   aiInsights (step now s (SelectZone z)) = aiInsights s \<and>
   aiInsights (step now s Reset) = [] \<and>
   length (aiInsights (run now as)) \<le> 5"
proof -
  have pass: "aiInsights (snd (detectIncidents now vs s)) =
        take 5 (rev (map snd (passAlerts now (clockReads s) vs)) @ aiInsights s)"
    if "length (aiInsights s) \<le> 5"
    using that by (simp only: detectIncidents_log foldl_pushInsight)
  have tick: "aiInsights (animate now d t (run now as)) =
        take 5 (rev (map snd (tickAlerts now d t (run now as))) @ aiInsights (run now as))"
    if "isRunning (run now as)"
    using that run_log_length [of now as] by (simp only: animate_aiInsights foldl_pushInsight)
  show ?thesis
    apply (intro conjI impI)
    subgoal by (rule length_pushInsight)
    subgoal by (rule foldl_pushInsight)
    subgoal by (simp add: pushInsight_def)
    subgoal using pass by blast
    subgoal using tick by blast
    subgoal by (simp add: animate_stopped)
    subgoal by simp
    subgoal by simp
    subgoal by simp
    subgoal by (simp add: resetSimulation_def)
    subgoal by (rule run_log_length)
    done
qed

theorem insight_log_bounded_newest_first_witness:
  "length ([] :: AIInsight list) \<le> 5 \<and>
   foldl (\<lambda>l a. pushInsight a l) []
     [stallInsight steadyClock 0 stalledHotVehicle, heatInsight steadyClock 2 stalledHotVehicle] =
     [heatInsight steadyClock 2 stalledHotVehicle, stallInsight steadyClock 0 stalledHotVehicle] \<and>
   length (aiInsights initial) \<le> 5 \<and>
   aiInsights (snd (detectIncidents steadyClock [stalledHotVehicle] initial)) =
     [stallInsight steadyClock 0 stalledHotVehicle] \<and>
   isRunning (run steadyClock [ToggleRunning]) \<and>
   aiInsights (animate steadyClock hotSpawnDraws 5000 (run steadyClock [ToggleRunning])) =
     take 5 (rev (map snd (tickAlerts steadyClock hotSpawnDraws 5000
       (run steadyClock [ToggleRunning]))) @ aiInsights (run steadyClock [ToggleRunning]))"
proof -
  have input: "\<not> detected stalledHotVehicle" "speed stalledHotVehicle < fl (2/10)"
    using literal_bounds by (simp_all add: stalledHotVehicle_def)
  have start: "aiInsights initial = []" "clockReads initial = 0"
    by (simp_all add: initial_def)
  have running: "isRunning (run steadyClock [ToggleRunning])"
    by (simp add: run_def runFrom_def initial_def)
  note inst = insight_log_bounded_newest_first
    [where prev = "[]" and s = initial and now = steadyClock and vs = "[stalledHotVehicle]"
       and as = "[ToggleRunning]" and d = hotSpawnDraws and t = 5000
       and xs = "[stallInsight steadyClock 0 stalledHotVehicle,
         heatInsight steadyClock 2 stalledHotVehicle]"]
  from inst start have "aiInsights (snd (detectIncidents steadyClock [stalledHotVehicle] initial)) =
      take 5 (rev (map snd (passAlerts steadyClock 0 [stalledHotVehicle])) @ [])"
    by simp
  with input have pass: "aiInsights (snd (detectIncidents steadyClock [stalledHotVehicle] initial)) =
      [stallInsight steadyClock 0 stalledHotVehicle]"
    by simp
  from inst have push: "foldl (\<lambda>l a. pushInsight a l) []
     [stallInsight steadyClock 0 stalledHotVehicle, heatInsight steadyClock 2 stalledHotVehicle] =
     [heatInsight steadyClock 2 stalledHotVehicle, stallInsight steadyClock 0 stalledHotVehicle]"
    by simp
  from inst running have tick:
    "aiInsights (animate steadyClock hotSpawnDraws 5000 (run steadyClock [ToggleRunning])) =
     take 5 (rev (map snd (tickAlerts steadyClock hotSpawnDraws 5000
       (run steadyClock [ToggleRunning]))) @ aiInsights (run steadyClock [ToggleRunning]))"
    by blast
  from start pass push running tick show ?thesis
    by simp
qed

section \<open>Reset\<close>

text \<open>
  C6: from every state, \<open>resetSimulation\<close> gives an empty vehicle list, elapsed time 0,
  vehicle count 0, air quality 85, temperature 22, visibility 95, an empty insight log,
  the incident flag cleared and the simulation stopped.
\<close>

theorem reset_restores_defaults:
  "vehicles (resetSimulation s) = [] \<and>
   simulationTime (resetSimulation s) = 0 \<and>
   vehicleCount (resetSimulation s) = 0 \<and>
   airQuality (resetSimulation s) = 85 \<and>
   temperature_s (resetSimulation s) = 22 \<and>
   visibility (resetSimulation s) = 95 \<and>
   aiInsights (resetSimulation s) = [] \<and>
   incidentDetected (resetSimulation s) = False \<and>
   isRunning (resetSimulation s) = False"
  by (simp add: resetSimulation_def)

section \<open>Leaving the tunnel\<close>

text \<open>
  C4: after the motion step every vehicle kept has position below 100, and the vehicles
  kept are exactly those whose position plus speed, as the double the code computes, is
  below 100, in their order, so a vehicle is dropped in the tick in which position plus
  speed reaches 100. The bound holds after every tick of \<open>animate\<close> and in every state a
  sequence of actions leads to. A vehicle at 99.5 with speed 0.6 is dropped by one step.
\<close>

theorem live_positions_below_100:
  "(\<forall>v\<in>set (moveVehicles r prev). position v < 100) \<and>
   map vid (moveVehicles r prev) =
     map vid (filter (\<lambda>v. fl (position v + speed v) < 100) prev) \<and>
   (isRunning s \<longrightarrow> (\<forall>v\<in>set (vehicles (animate now d t s)). position v < 100)) \<and>
   (\<forall>v\<in>set (vehicles (run now as)). position v < 100) \<and>
   (position w = 995/10 \<and> speed w = fl (6/10) \<longrightarrow> moveVehicles r [w] = [])"
proof (intro conjI impI)
  show "\<forall>v\<in>set (moveVehicles r prev). position v < 100"
    by (simp add: moveVehicles_def)
  show "map vid (moveVehicles r prev) =
      map vid (filter (\<lambda>v. fl (position v + speed v) < 100) prev)"
    by (rule moveVehicles_ids)
  show "\<forall>v\<in>set (vehicles (animate now d t s)). position v < 100" if "isRunning s"
    using that animate_below_100 [of s _ now d t] by blast
  show "\<forall>v\<in>set (vehicles (run now as)). position v < 100"
    by (rule run_invariant) (simp add: initial_def, rule step_below_100)
  show "moveVehicles r [w] = []" if w: "position w = 995/10 \<and> speed w = fl (6/10)"
  proof -
    have "100 \<le> position w + speed w"
      using w by (simp add: literal_values)
    then have "fl 100 \<le> fl (position w + speed w)"
      by (rule fl_mono)
    then show ?thesis
      by (simp add: moveVehicles_def)
  qed
qed

theorem live_positions_below_100_witness:
  "map position (vehicles (run steadyClock truckRun)) = [fl (3/10)] \<and>
   map vid (moveVehicles (slowdownDraw truckSpawnDraws) [stalledHotVehicle]) = [3] \<and>
   isRunning (run steadyClock truckRun) \<and>
   position (stalledHotVehicle\<lparr>position := 995/10, speed := fl (6/10)\<rparr>) = 995/10 \<and>
   moveVehicles (slowdownDraw truckSpawnDraws)
     [stalledHotVehicle\<lparr>position := 995/10, speed := fl (6/10)\<rparr>] = []"
proof -
  have kept: "fl (321/8) = 321/8"
    using fl_dyadic [of 321 3] by simp
  have first: "map position (vehicles (run steadyClock truckRun)) = [fl (3/10)]"
    and running: "isRunning (run steadyClock truckRun)"
    by (simp_all add: simulation_defs input_defs)
  have ids: "map vid (moveVehicles (slowdownDraw truckSpawnDraws) [stalledHotVehicle]) = [3]"
    by (simp add: simulation_defs input_defs kept)
  from live_positions_below_100
    [where w = "stalledHotVehicle\<lparr>position := 995/10, speed := fl (6/10)\<rparr>"
       and r = "slowdownDraw truckSpawnDraws"]
  have "moveVehicles (slowdownDraw truckSpawnDraws)
     [stalledHotVehicle\<lparr>position := 995/10, speed := fl (6/10)\<rparr>] = []"
    by simp
  with first running ids show ?thesis
    by simp
qed

section \<open>Environmental sensors\<close>

text \<open>
  C7: after every sequence of actions from the initial state the air quality is in
  [70, 100], the temperature in [18, 28] and the visibility in [80, 100]. A tick of the
  running simulation sets each to the clamp of its previous value plus a perturbation,
  which for a draw in [0, 1) is at most 1, 0.25 and 0.5 in absolute value.
\<close>

theorem environment_within_bounds:
  "70 \<le> airQuality (run now as) \<and> airQuality (run now as) \<le> 100 \<and>
   18 \<le> temperature_s (run now as) \<and> temperature_s (run now as) \<le> 28 \<and>
   80 \<le> visibility (run now as) \<and> visibility (run now as) \<le> 100 \<and>
   (isRunning s \<longrightarrow>
      airQuality (animate now d t s) =
        max 70 (min 100 (fl (airQuality s + fl (fl (airQualityDraw d - 1/2) * 2)))) \<and>
      temperature_s (animate now d t s) =
        max 18 (min 28 (fl (temperature_s s + fl (fl (temperatureEnvDraw d - 1/2) * (1/2))))) \<and>
      visibility (animate now d t s) =
        max 80 (min 100 (fl (visibility s + fl (fl (visibilityDraw d - 1/2) * 1))))) \<and>
   (valid_draws d \<longrightarrow>
      \<bar>fl (fl (airQualityDraw d - 1/2) * 2)\<bar> \<le> 1 \<and>
      \<bar>fl (fl (temperatureEnvDraw d - 1/2) * (1/2))\<bar> \<le> 1/4 \<and>
      \<bar>fl (fl (visibilityDraw d - 1/2) * 1)\<bar> \<le> 1/2)"
proof -
  have bounds: "70 \<le> airQuality (run now as) \<and> airQuality (run now as) \<le> 100 \<and>
      18 \<le> temperature_s (run now as) \<and> temperature_s (run now as) \<le> 28 \<and>
      80 \<le> visibility (run now as) \<and> visibility (run now as) \<le> 100"
    by (rule run_invariant) (simp add: initial_def, rule step_environment)
  have tick: "airQuality (animate now d t s) =
        max 70 (min 100 (fl (airQuality s + fl (fl (airQualityDraw d - 1/2) * 2)))) \<and>
      temperature_s (animate now d t s) =
        max 18 (min 28 (fl (temperature_s s + fl (fl (temperatureEnvDraw d - 1/2) * (1/2))))) \<and>
      visibility (animate now d t s) =
        max 80 (min 100 (fl (visibility s + fl (fl (visibilityDraw d - 1/2) * 1))))"
    if "isRunning s"
    using that
    by (simp add: animate_def sensorStep_def vehicleStep_sensors spawnStep_sensors)
  have half: "\<bar>fl (r - 1/2)\<bar> \<le> 1/2" if "unit_draw r" for r
  proof -
    from that have "\<bar>r - 1/2\<bar> \<le> 1/2"
      by (auto simp: unit_draw_def abs_if)
    then show ?thesis
      by (rule fl_abs_le) simp
  qed
  have draws: "\<bar>fl (fl (airQualityDraw d - 1/2) * 2)\<bar> \<le> 1 \<and>
      \<bar>fl (fl (temperatureEnvDraw d - 1/2) * (1/2))\<bar> \<le> 1/4 \<and>
      \<bar>fl (fl (visibilityDraw d - 1/2) * 1)\<bar> \<le> 1/2" if "valid_draws d"
  proof -
    from that have u: "unit_draw (airQualityDraw d)" "unit_draw (temperatureEnvDraw d)"
      "unit_draw (visibilityDraw d)"
      by (simp_all add: valid_draws_def)
    have "\<bar>fl (airQualityDraw d - 1/2)\<bar> \<le> 1/2"
      "\<bar>fl (temperatureEnvDraw d - 1/2)\<bar> \<le> 1/2" "\<bar>fl (visibilityDraw d - 1/2)\<bar> \<le> 1/2"
      using u(1) half apply blast
      using u(2) half apply blast
      using u(3) half apply blast
      done
    then have "\<bar>fl (airQualityDraw d - 1/2) * 2\<bar> \<le> 1"
      "\<bar>fl (temperatureEnvDraw d - 1/2) * (1/2)\<bar> \<le> 1/4"
      "\<bar>fl (visibilityDraw d - 1/2) * 1\<bar> \<le> 1/2"
      by (simp_all add: abs_mult)
    then have "\<bar>fl (fl (airQualityDraw d - 1/2) * 2)\<bar> \<le> 1"
      "\<bar>fl (fl (temperatureEnvDraw d - 1/2) * (1/2))\<bar> \<le> 1/4"
      "\<bar>fl (fl (visibilityDraw d - 1/2) * 1)\<bar> \<le> 1/2"
      by (simp_all only: fl_abs_le fl_numeral)
    then show ?thesis
      by blast
  qed
  from bounds tick draws show ?thesis by blast
qed

theorem environment_within_bounds_witness:
  "isRunning (run steadyClock truckRun) \<and> valid_draws hotSpawnDraws \<and>
   airQuality (animate steadyClock hotSpawnDraws 9000 (run steadyClock truckRun)) = 85 \<and>
   temperature_s (animate steadyClock hotSpawnDraws 9000 (run steadyClock truckRun)) = 22 \<and>
   visibility (animate steadyClock hotSpawnDraws 9000 (run steadyClock truckRun)) = 95"
proof -
  have running: "isRunning (run steadyClock truckRun)"
    by (simp add: run_def runFrom_def truckRun_def initial_def animate_def sensorStep_def
        vehicleStep_sensors spawnStep_sensors)
  have valid: "valid_draws hotSpawnDraws"
    by (simp add: valid_draws_def unit_draw_def hotSpawnDraws_def)
  have start: "airQuality (run steadyClock truckRun) = 85 \<and>
      temperature_s (run steadyClock truckRun) = 22 \<and>
      visibility (run steadyClock truckRun) = 95"
    by (simp add: run_def runFrom_def truckRun_def truckSpawnDraws_def initial_def animate_def
        sensorStep_def vehicleStep_sensors spawnStep_sensors)
  show ?thesis
    using running valid start
      environment_within_bounds
        [where now = steadyClock and s = "run steadyClock truckRun" and d = hotSpawnDraws
           and t = 9000]
    by (simp add: hotSpawnDraws_def)
qed

section \<open>The incident flag\<close>

text \<open>
  C2 at a hot vehicle: the first tick of a running simulation spawns a car at 33.125
  degrees with speed 0.5; the heat rule sets its flag and logs the critical alert for
  zone CAM-01, and the incident flag is still false after the tick. The heat rule leaves
  the incident flag as it was, for every vehicle and state.
\<close>

theorem heat_alert_leaves_incident_flag:
  "valid_draws hotSpawnDraws \<and>
   vehicles (animate steadyClock hotSpawnDraws 5000 (initial\<lparr>isRunning := True\<rparr>)) =
     [\<lparr> vid = 0, lane = 1, position = 1/2, speed = 1/2, vtype = Some Car,
        color = Some ''#3b82f6'', temperature = 265/8, detected = True \<rparr>] \<and>
   aiInsights (animate steadyClock hotSpawnDraws 5000 (initial\<lparr>isRunning := True\<rparr>)) =
     [\<lparr> iid = 1700000000000, itimestamp = 1700000000000, itype = Critical,
        message = HotSpot (Some Car) 33 2, zone = Some ''CAM-01'' \<rparr>] \<and>
   incidentDetected (animate steadyClock hotSpawnDraws 5000 (initial\<lparr>isRunning := True\<rparr>)) =
     False \<and>
   incidentDetected (snd (heatRule now (v, s))) = incidentDetected s"
  by (simp add: simulation_defs input_defs)

section \<open>Insight ids\<close>

text \<open>
  C5 at two stalls in one pass: after the tick that spawned the truck V-0 the log is
  empty; the next tick spawns V-1 and slows both trucks, the pass logs a warning for each,
  and with a clock that stays within one millisecond the two insights have the same id.
  The id of an insight is the clock reading alone.
\<close>

theorem insight_ids_collide_in_one_pass:
  "list_all valid_action truckRun \<and> valid_draws slowSpawnDraws \<and>
   aiInsights (run steadyClock truckRun) = [] \<and>
   map vid (vehicles (animate steadyClock slowSpawnDraws 9000 (run steadyClock truckRun))) =
     [0, 1] \<and>
   map iid (aiInsights (animate steadyClock slowSpawnDraws 9000 (run steadyClock truckRun))) =
     [1700000000000, 1700000000000] \<and>
   map message (aiInsights (animate steadyClock slowSpawnDraws 9000 (run steadyClock truckRun))) =
     [SlowStopped (Some Truck) 2 0, SlowStopped (Some Truck) 2 1] \<and>
   iid (stallInsight now k v) = now k \<and> iid (heatInsight now k v) = now k"
proof -
  have slowed: "fl (29206669829258403248756220714025 / 324518553658426726783156020576256) =
      3242591731706757 / 2 ^ 55"
    using fl_eval [of "- 4"
      "29206669829258403248756220714025 / 324518553658426726783156020576256"]
    by (simp add: rne_def)
  have doubled: "fl (5404319552844595 / 9007199254740992) = 5404319552844595 / 2 ^ 53"
    using fl_dyadic [of 5404319552844595 53] by simp
  show ?thesis
    by (simp add: simulation_defs input_defs slowed doubled)
qed

section \<open>Motion\<close>

text \<open>
  C8, as amended: in every state reached by actions whose draws are doubles in [0, 1), a
  tick of the running simulation relates the vehicles it keeps, in order, to the vehicles
  before the motion step whose new position is below 100: same id, new position equal to
  the double nearest to the old position plus the old speed, which is not negative, so
  the position does not decrease; the new speed is the old speed or the double nearest to
  0.3 times the old speed, and it is neither negative nor above the old speed. The
  vehicles before the motion step are those of the state, followed by the vehicle spawned
  in this tick if there is one.
\<close>

theorem positions_never_decrease:
  assumes "list_all valid_action as" and "valid_draws d" and "isRunning (run now as)"
  shows "list_all2
      (\<lambda>v v'. vid v' = vid v \<and> position v' = fl (position v + speed v) \<and> 0 \<le> speed v \<and>
         position v \<le> position v' \<and> speed v' \<le> speed v \<and> 0 \<le> speed v' \<and>
         (speed v' = speed v \<or> speed v' = fl (speed v * fl (3/10))))
      (filter (\<lambda>v. fl (position v + speed v) < 100) (vehicles (spawnStep d t (run now as))))
      (vehicles (animate now d t (run now as))) \<and>
    (vehicles (spawnStep d t (run now as)) = vehicles (run now as) \<or>
     vehicles (spawnStep d t (run now as)) =
       vehicles (run now as) @ [fst (spawnVehicle d (vehicleIdCounter (run now as)))])"
proof -
  have "\<forall>v\<in>set (vehicles (run now as)).
      is_double (position v) \<and> is_double (speed v) \<and> 0 \<le> speed v"
    using assms(1) by (rule run_numbers)
  then have "\<forall>v\<in>set (vehicles (spawnStep d t (run now as))).
      is_double (position v) \<and> is_double (speed v) \<and> 0 \<le> speed v"
    using assms(2) by (rule spawnStep_numbers)
  then have "list_all2
      (\<lambda>v v'. vid v' = vid v \<and> position v' = fl (position v + speed v) \<and> 0 \<le> speed v \<and>
         position v \<le> position v' \<and> speed v' \<le> speed v \<and> 0 \<le> speed v' \<and>
         (speed v' = speed v \<or> speed v' = fl (speed v * fl (3/10))))
      (filter (\<lambda>v. fl (position v + speed v) < 100) (vehicles (spawnStep d t (run now as))))
      (map markDetected (filter (\<lambda>v. position v < 100)
         (mapVehicles (slowdownDraw d) 0 (vehicles (spawnStep d t (run now as))))))"
    by (rule mapVehicles_related)
  moreover have "vehicles (animate now d t (run now as)) =
      map markDetected (filter (\<lambda>v. position v < 100)
         (mapVehicles (slowdownDraw d) 0 (vehicles (spawnStep d t (run now as)))))"
    using assms(3) by (simp add: animate_vehicles moveVehicles_def)
  moreover have "vehicles (spawnStep d t (run now as)) = vehicles (run now as) \<or>
     vehicles (spawnStep d t (run now as)) =
       vehicles (run now as) @ [fst (spawnVehicle d (vehicleIdCounter (run now as)))]"
    using spawnStep_cases [of d t "run now as"] by blast
  ultimately show ?thesis
    by (simp only: simp_thms)
qed

theorem positions_never_decrease_witness:
  "list_all valid_action truckRun \<and> valid_draws truckSpawnDraws \<and>
   isRunning (run steadyClock truckRun) \<and>
   list_all2
      (\<lambda>v v'. vid v' = vid v \<and> position v' = fl (position v + speed v) \<and> 0 \<le> speed v \<and>
         position v \<le> position v' \<and> speed v' \<le> speed v \<and> 0 \<le> speed v' \<and>
         (speed v' = speed v \<or> speed v' = fl (speed v * fl (3/10))))
      (filter (\<lambda>v. fl (position v + speed v) < 100)
         (vehicles (spawnStep truckSpawnDraws 5016 (run steadyClock truckRun))))
      (vehicles (animate steadyClock truckSpawnDraws 5016 (run steadyClock truckRun))) \<and>
   map position (vehicles (run steadyClock truckRun)) = [fl (3/10)] \<and>
   map position (vehicles (animate steadyClock truckSpawnDraws 5016 (run steadyClock truckRun))) =
     [fl (6/10)]"
proof -
  have doubled: "fl (5404319552844595 / 9007199254740992) = 5404319552844595 / 2 ^ 53"
    using fl_dyadic [of 5404319552844595 53] by simp
  have actions: "list_all valid_action truckRun"
    by (simp add: input_defs)
  have draws: "valid_draws truckSpawnDraws"
    by (simp add: input_defs)
  have running: "isRunning (run steadyClock truckRun)"
    by (simp add: simulation_defs input_defs)
  have before: "map position (vehicles (run steadyClock truckRun)) = [fl (3/10)]"
    by (simp add: simulation_defs input_defs)
  have after: "map position
      (vehicles (animate steadyClock truckSpawnDraws 5016 (run steadyClock truckRun))) =
        [fl (6/10)]"
    by (simp add: simulation_defs input_defs doubled)
  from positions_never_decrease [OF actions draws running, of 5016]
  have "list_all2
      (\<lambda>v v'. vid v' = vid v \<and> position v' = fl (position v + speed v) \<and> 0 \<le> speed v \<and>
         position v \<le> position v' \<and> speed v' \<le> speed v \<and> 0 \<le> speed v' \<and>
         (speed v' = speed v \<or> speed v' = fl (speed v * fl (3/10))))
      (filter (\<lambda>v. fl (position v + speed v) < 100)
         (vehicles (spawnStep truckSpawnDraws 5016 (run steadyClock truckRun))))
      (vehicles (animate steadyClock truckSpawnDraws 5016 (run steadyClock truckRun)))"
    by (rule conjunct1)
  with actions draws running before after show ?thesis
    by (simp only: simp_thms)
qed

text \<open>
  C8 as stated fails in one part: the speed is not always positive. A truck spawned at
  speed 0.3 and slowed down in each of 1075 ticks is still in the tunnel, below position
  1, and its speed, a double, has underflowed to exactly 0.
\<close>

theorem speed_underflows_to_zero:
  "list_all valid_action underflowRun \<and> isRunning (run steadyClock underflowRun) \<and>
   map speed (vehicles (run steadyClock underflowRun)) = [0] \<and>
   length (vehicles (run steadyClock underflowRun)) = 1"
proof -
  have count: "(1075::nat) = Suc 1074"
    by simp
  have actions: "list_all valid_action underflowRun"
    by (simp add: underflowRun_def list_all_iff input_defs)
  from underflow_run [of steadyClock 1074]
  obtain v where v: "vehicles (run steadyClock underflowRun) = [v]" "is_double (speed v)"
      "0 \<le> speed v" "speed v \<le> 1 / 2 ^ Suc (Suc 1074)"
    and running: "isRunning (run steadyClock underflowRun)"
    unfolding underflowRun_def count by blast
  from v(2-4) have "speed v = 0"
    by (rule double_underflow) simp
  with v(1) actions running show ?thesis
    by simp
qed

section \<open>Spawning\<close>

text \<open>
  C9, as amended: for draws that \<open>Math.random()\<close> can return, the spawned vehicle is a
  car or a truck and never an emergency vehicle; it is a truck exactly when the index
  \<open>Math.floor(draw * 5)\<close> is 3, the one truck entry of a table with four car entries out of
  five, and the index is always inside the table. A truck's speed is in [0.3, 0.5], a car's
  in [0.5, 0.8), where 0.3 and 0.8 are the doubles of these literals. The position is 0 and
  the detected flag is false.
\<close>

theorem spawnVehicle_properties:
  assumes "unit_draw (typeDraw d)" and "unit_draw (speedDraw d)"
  shows "(vtype (fst (spawnVehicle d c)) = Some Car \<or> vtype (fst (spawnVehicle d c)) = Some Truck) \<and>
    vtype (fst (spawnVehicle d c)) \<noteq> Some Emergency \<and>
    (vtype (fst (spawnVehicle d c)) = Some Truck \<longleftrightarrow> \<lfloor>fl (typeDraw d * 5)\<rfloor> = 3) \<and>
    0 \<le> \<lfloor>fl (typeDraw d * 5)\<rfloor> \<and> \<lfloor>fl (typeDraw d * 5)\<rfloor> < 5 \<and>
    (vtype (fst (spawnVehicle d c)) = Some Truck \<longrightarrow>
       fl (3/10) \<le> speed (fst (spawnVehicle d c)) \<and> speed (fst (spawnVehicle d c)) \<le> 1/2) \<and>
    (vtype (fst (spawnVehicle d c)) = Some Car \<longrightarrow>
       1/2 \<le> speed (fst (spawnVehicle d c)) \<and> speed (fst (spawnVehicle d c)) < fl (8/10)) \<and>
    position (fst (spawnVehicle d c)) = 0 \<and>
    detected (fst (spawnVehicle d c)) = False \<and>
    length vehicleTypes = 5 \<and> count_list vehicleTypes Car = 4 \<and>
    count_list vehicleTypes Truck = 1 \<and> count_list vehicleTypes Emergency = 0"
proof -
  have table: "length vehicleTypes = 5 \<and> count_list vehicleTypes Car = 4 \<and>
      count_list vehicleTypes Truck = 1 \<and> count_list vehicleTypes Emergency = 0"
    by (simp add: vehicleTypes_def)
  have kind: "vtype (fst (spawnVehicle d c)) =
      (if \<lfloor>fl (typeDraw d * 5)\<rfloor> = 3 then Some Truck else Some Car)"
    by (simp only: spawnVehicle_fields vehicleTypes_lookup [OF assms(1)])
  have rest: "position (fst (spawnVehicle d c)) = 0 \<and> detected (fst (spawnVehicle d c)) = False"
    by (simp add: spawnVehicle_fields)
  note index = type_index [OF assms(1)]
  show ?thesis
  proof (cases "\<lfloor>fl (typeDraw d * 5)\<rfloor> = 3")
    case True
    with kind have truck: "vtype (fst (spawnVehicle d c)) = Some Truck"
      by simp
    then have "speed (fst (spawnVehicle d c)) = fl (fl (3/10) + fl (speedDraw d * fl (2/10)))"
      by (simp add: spawnVehicle_fields(2))
    with truck_speed [OF assms(2)]
    have "fl (3/10) \<le> speed (fst (spawnVehicle d c)) \<and> speed (fst (spawnVehicle d c)) \<le> 1/2"
      by simp
    with truck True table rest index show ?thesis
      by simp
  next
    case False
    with kind have car: "vtype (fst (spawnVehicle d c)) = Some Car"
      by simp
    then have "speed (fst (spawnVehicle d c)) = fl (1/2 + fl (speedDraw d * fl (3/10)))"
      by (simp add: spawnVehicle_fields(2))
    with car_speed [OF assms(2)]
    have "1/2 \<le> speed (fst (spawnVehicle d c)) \<and> speed (fst (spawnVehicle d c)) < fl (8/10)"
      by simp
    with car False table rest index show ?thesis
      by simp
  qed
qed

theorem spawnVehicle_properties_witness:
  "unit_draw (typeDraw truckSpawnDraws) \<and> unit_draw (speedDraw truckSpawnDraws) \<and>
   vtype (fst (spawnVehicle truckSpawnDraws 0)) = Some Truck \<and>
   speed (fst (spawnVehicle truckSpawnDraws 0)) = fl (3/10) \<and>
   unit_draw (typeDraw hotSpawnDraws) \<and> unit_draw (speedDraw hotSpawnDraws) \<and>
   vtype (fst (spawnVehicle hotSpawnDraws 0)) = Some Car \<and>
   speed (fst (spawnVehicle hotSpawnDraws 0)) = 1/2"
proof -
  have truck: "unit_draw (typeDraw truckSpawnDraws)" "unit_draw (speedDraw truckSpawnDraws)"
    by (simp_all add: unit_draw_def truckSpawnDraws_def)
  have car: "unit_draw (typeDraw hotSpawnDraws)" "unit_draw (speedDraw hotSpawnDraws)"
    by (simp_all add: unit_draw_def hotSpawnDraws_def)
  have speeds: "speed (fst (spawnVehicle truckSpawnDraws 0)) = fl (3/10)"
    "speed (fst (spawnVehicle hotSpawnDraws 0)) = 1/2"
    by (simp_all add: simulation_defs input_defs)
  have "\<lfloor>fl (typeDraw truckSpawnDraws * 5)\<rfloor> = 3" and "\<lfloor>fl (typeDraw hotSpawnDraws * 5)\<rfloor> \<noteq> 3"
    by (simp_all add: truckSpawnDraws_def hotSpawnDraws_def)
  with spawnVehicle_properties [OF truck, of 0] spawnVehicle_properties [OF car, of 0]
  have "vtype (fst (spawnVehicle truckSpawnDraws 0)) = Some Truck"
    and "vtype (fst (spawnVehicle hotSpawnDraws 0)) = Some Car"
    by auto
  with truck car speeds show ?thesis
    by simp
qed

text \<open>
  C9 as stated fails: at the largest draw \<open>Math.random()\<close> can return, the double just
  below 1, the truck's speed 0.3 + draw * 0.2 is exactly 0.5, outside [0.3, 0.5).
\<close>

theorem truck_speed_reaches_half:
  "unit_draw (typeDraw topSpeedDraws) \<and> unit_draw (speedDraw topSpeedDraws) \<and>
   speedDraw topSpeedDraws < 1 \<and>
   vtype (fst (spawnVehicle topSpeedDraws 0)) = Some Truck \<and>
   speed (fst (spawnVehicle topSpeedDraws 0)) = 1/2"
proof -
  have top: "is_double (9007199254740991 / 9007199254740992)"
    using fl_dyadic [of 9007199254740991 53] by (simp add: is_double_def)
  have product: "fl (32451855365842670876875751109427 / 162259276829213363391578010288128) =
      7205759403792793 / 36028797018963968"
    using top_products(2) by (simp add: literal_values)
  have sum: "fl (18014398509481983 / 36028797018963968) = 1/2"
    using top_sums(1) by (simp add: literal_values)
  show ?thesis
    by (simp add: simulation_defs input_defs top product sum)
qed

section \<open>Stalls and slowdowns\<close>

text \<open>
  C10, as amended: a spawned vehicle has speed at least 0.3, above the stall threshold
  0.2 (both as doubles). In every state reached by actions whose draws are doubles in
  [0, 1), a vehicle whose id is not in the slowdown history has speed at least 0.3; the
  history of a run collects, tick by tick, the ids of the vehicles whose draw of line 145
  exceeded 0.995, and a reset empties it. A tick of the running simulation pushes the
  alerts of its pass onto the log, and every warning among them is raised for a vehicle
  whose id is in the history after the tick: slowed down in this tick, possibly its spawn
  tick, or in an earlier one. The ids of the live vehicles are pairwise distinct and below
  the counter from which the next id is taken.
\<close>

theorem stall_needs_slowdown:
  assumes "list_all valid_action as" and "valid_draws d"
  shows "fl (2/10) < fl (3/10) \<and>
    fl (3/10) \<le> speed (fst (spawnVehicle d c)) \<and>
    fst (runH now as) = run now as \<and>
    (\<forall>v\<in>set (vehicles (run now as)). vid v \<notin> slowedIds now as \<longrightarrow> fl (3/10) \<le> speed v) \<and>
    (isRunning (run now as) \<longrightarrow>
       aiInsights (run now (as @ [Animate d t])) =
         foldl (\<lambda>l a. pushInsight a l) (aiInsights (run now as))
           (map snd (tickAlerts now d t (run now as))) \<and>
       (\<forall>(n, a)\<in>set (tickAlerts now d t (run now as)).
          itype a = Warning \<longrightarrow> n \<in> slowedIds now (as @ [Animate d t])) \<and>
       slowedIds now (as @ [Animate d t]) =
         slowedIds now as \<union>
         slowedIn (slowdownDraw d) 0 (vehicles (spawnStep d t (run now as)))) \<and>
    (\<not> isRunning (run now as) \<longrightarrow>
       run now (as @ [Animate d t]) = run now as \<and>
       slowedIds now (as @ [Animate d t]) = slowedIds now as) \<and>
    slowedIds now [] = {} \<and> slowedIds now (as @ [Reset]) = {} \<and>
    slowedIds now (as @ [ToggleRunning]) = slowedIds now as \<and>
    slowedIds now (as @ [Acknowledge]) = slowedIds now as \<and>
    slowedIds now (as @ [SelectZone z]) = slowedIds now as \<and>
    idsInOrder (run now as) \<and>
    vid (fst (spawnVehicle d (vehicleIdCounter (run now as)))) = vehicleIdCounter (run now as)"
proof -
  have threshold: "fl (2/10) < fl (3/10)"
    by (simp add: literal_values)
  from assms(2) have spawn: "fl (3/10) \<le> speed (fst (spawnVehicle d c))"
    by (intro spawnVehicle_speed) (simp add: valid_draws_def)
  note unslowed = run_unslowed [OF assms(1), of now]
  have tick: "aiInsights (run now (as @ [Animate d t])) =
         foldl (\<lambda>l a. pushInsight a l) (aiInsights (run now as))
           (map snd (tickAlerts now d t (run now as))) \<and>
       (\<forall>(n, a)\<in>set (tickAlerts now d t (run now as)).
          itype a = Warning \<longrightarrow> n \<in> slowedIds now (as @ [Animate d t])) \<and>
       slowedIds now (as @ [Animate d t]) =
         slowedIds now as \<union>
         slowedIn (slowdownDraw d) 0 (vehicles (spawnStep d t (run now as)))"
    if running: "isRunning (run now as)"
  proof -
    have log: "aiInsights (run now (as @ [Animate d t])) =
         foldl (\<lambda>l a. pushInsight a l) (aiInsights (run now as))
           (map snd (tickAlerts now d t (run now as)))"
      using running by (simp add: run_snoc animate_aiInsights)
    have history: "slowedIds now (as @ [Animate d t]) =
         slowedIds now as \<union>
         slowedIn (slowdownDraw d) 0 (vehicles (spawnStep d t (run now as)))"
      using running by (simp add: slowedIds_Animate)
    have "n \<in> slowedIds now (as @ [Animate d t])"
      if "(n, a) \<in> set (tickAlerts now d t (run now as))" and "itype a = Warning" for n a
      using spawnStep_unslowed [OF unslowed assms(2), of t] that
      unfolding history tickAlerts_def by (rule stall_alert_slowed)
    then have "\<forall>(n, a)\<in>set (tickAlerts now d t (run now as)).
          itype a = Warning \<longrightarrow> n \<in> slowedIds now (as @ [Animate d t])"
      by blast
    with log history show ?thesis
      by blast
  qed
  have stopped: "run now (as @ [Animate d t]) = run now as \<and>
       slowedIds now (as @ [Animate d t]) = slowedIds now as"
    if "\<not> isRunning (run now as)"
    using that by (simp add: run_snoc animate_stopped slowedIds_Animate)
  have others: "slowedIds now [] = {} \<and> slowedIds now (as @ [Reset]) = {} \<and>
    slowedIds now (as @ [ToggleRunning]) = slowedIds now as \<and>
    slowedIds now (as @ [Acknowledge]) = slowedIds now as \<and>
    slowedIds now (as @ [SelectZone z]) = slowedIds now as"
    by (simp only: slowedIds_Nil slowedIds_others simp_thms)
  have ids: "idsInOrder (run now as) \<and>
    vid (fst (spawnVehicle d (vehicleIdCounter (run now as)))) = vehicleIdCounter (run now as)"
    by (simp only: run_idsInOrder spawnVehicle_vid simp_thms)
  from threshold spawn runH_fst [of now as] unslowed tick stopped others ids show ?thesis
    by blast
qed

theorem stall_needs_slowdown_witness:
  "list_all valid_action truckRun \<and> valid_draws slowSpawnDraws \<and>
   isRunning (run steadyClock truckRun) \<and>
   map (\<lambda>v. (vid v, speed v)) (vehicles (run steadyClock truckRun)) = [(0, fl (3/10))] \<and>
   slowedIds steadyClock truckRun = {} \<and>
   map (\<lambda>(n, a). (n, itype a))
     (tickAlerts steadyClock slowSpawnDraws 5016 (run steadyClock truckRun)) = [(0, Warning)] \<and>
   0 \<in> slowedIds steadyClock (truckRun @ [Animate slowSpawnDraws 5016])"
proof -
  have actions: "list_all valid_action truckRun"
    by (simp add: input_defs)
  have draws: "valid_draws slowSpawnDraws"
    by (simp add: input_defs)
  have running: "isRunning (run steadyClock truckRun)"
    by (simp add: simulation_defs input_defs)
  have before: "map (\<lambda>v. (vid v, speed v)) (vehicles (run steadyClock truckRun)) =
      [(0, fl (3/10))]"
    by (simp add: simulation_defs input_defs)
  have history: "slowedIds steadyClock truckRun = {}"
    by (simp add: slowedIds_def runH_def simulation_defs input_defs)
  have alerts: "map (\<lambda>(n, a). (n, itype a))
     (tickAlerts steadyClock slowSpawnDraws 5016 (run steadyClock truckRun)) = [(0, Warning)]"
    by (simp add: tickAlerts_def simulation_defs input_defs truck_slowed truck_doubled)
  then obtain a where alert: "tickAlerts steadyClock slowSpawnDraws 5016 (run steadyClock truckRun) =
      [(0, a)]" "itype a = Warning"
    by auto
  note tick = stall_needs_slowdown [OF actions draws, of 0 steadyClock 5016 0,
      THEN conjunct2, THEN conjunct2, THEN conjunct2, THEN conjunct2, THEN conjunct1,
      THEN mp, OF running, THEN conjunct2, THEN conjunct1]
  with alert have "0 \<in> slowedIds steadyClock (truckRun @ [Animate slowSpawnDraws 5016])"
    by simp
  with actions draws running before history alerts show ?thesis
    by (simp only: simp_thms)
qed

text \<open>
  C10 as stated fails: the first tick of a running simulation spawns the truck V-0 with
  speed 0.3, slows it to the double nearest to 0.3 * 0.3 in the same tick, and logs the
  stall warning for it.
\<close>

theorem stall_alert_on_spawn_tick:
  "list_all valid_action [ToggleRunning, Animate slowSpawnDraws 5000] \<and>
   vehicles (run steadyClock [ToggleRunning]) = [] \<and>
   vehicleIdCounter (run steadyClock [ToggleRunning]) = 0 \<and>
   vehicles (run steadyClock [ToggleRunning, Animate slowSpawnDraws 5000]) =
     [\<lparr> vid = 0, lane = 1, position = fl (3/10), speed = fl (fl (3/10) * fl (3/10)),
        vtype = Some Truck, color = Some ''#3b82f6'', temperature = 95/4, detected = True \<rparr>] \<and>
   fl (fl (3/10) * fl (3/10)) < fl (2/10) \<and>
   aiInsights (run steadyClock [ToggleRunning, Animate slowSpawnDraws 5000]) =
     [\<lparr> iid = 1700000000000, itimestamp = 1700000000000, itype = Warning,
        message = SlowStopped (Some Truck) 2 0, zone = Some ''CAM-01'' \<rparr>]"
  by (simp add: simulation_defs input_defs truck_slowed)

end
